theory Spec2Isabelle
  imports
    Complex_Main
    "HOL-Library.AList"
    "HOL-Library.Char_ord"
    "HOL-Library.List_Lexorder"
    "HOL-Library.Product_Lexorder"
begin

section \<open>Data model (models.py, validators.py)\<close>

text \<open>
  Dates are day ordinals: the code only compares them (\<open>\<le>\<close>, \<open>=\<close>, \<open><\<close>).
  \<open>Decimal\<close> amounts are rationals. A store holds its rows as a session reads them
  back from the database; what the \<open>Decimal\<close> context and the \<open>Numeric\<close> columns do
  to an amount on its way into the store is part of the ingestion model (\<open>library\<close>
  below). The queries compute on the amounts of the store exactly.
  Strings are compared as Python compares \<open>str\<close>: lexicographically by character.
  The columns \<open>id\<close> and \<open>created_at\<close> are filled in by the database when a row is
  inserted; no function modelled here reads or assigns them, so the records leave them out.
\<close>

type_synonym date = int

record account =
  a_account_id :: string
  a_custodian_name :: "string option"

record trade =
  t_trade_date :: date
  t_account_id :: string
  t_ticker :: string
  t_quantity :: int
  t_price :: "rat option"
  t_trade_type :: "string option"
  t_settlement_date :: "date option"
  t_market_value :: "rat option"
  t_source_system :: "string option"
  t_file_format :: string
  t_source_file :: string

record position =
  p_report_date :: date
  p_account_id :: string
  p_ticker :: string
  p_shares :: int
  p_market_value :: rat
  p_custodian_ref :: "string option"
  p_source_file :: string

text \<open>
  The rows of the database, in insertion order. Every request opens its own session
  (app.py, \<open>get_db_session\<close>) and reads or writes these rows through it.
\<close>

record store =
  accounts :: "account list"
  trades :: "trade list"
  positions :: "position list"

definition empty_store :: store where
  "empty_store = \<lparr>accounts = [], trades = [], positions = []\<rparr>"

record DataQualityReport =
  file_name :: string
  file_format :: string
  records_processed :: nat
  records_valid :: nat
  records_failed :: nat
  errors :: "string list"
  warnings :: "string list"
  new_accounts_created :: nat
  custodians_detected :: "string list"

definition new_report :: "string \<Rightarrow> string \<Rightarrow> DataQualityReport" where
  "new_report fname fmt =
     \<lparr>file_name = fname, file_format = fmt, records_processed = 0, records_valid = 0,
      records_failed = 0, errors = [], warnings = [], new_accounts_created = 0,
      custodians_detected = []\<rparr>"

section \<open>Custodian derivation and account resolution (ingestion.py)\<close>

text \<open>Python's \<open>s.split(sep)\<close> for a one-character separator.\<close>

fun split :: "char \<Rightarrow> string \<Rightarrow> string list" where
  "split c [] = [[]]"
| "split c (x # xs) =
     (if x = c then [] # split c xs
      else (case split c xs of p # ps \<Rightarrow> (x # p) # ps | [] \<Rightarrow> [[x]]))"

text \<open>
  \<open>extract_custodian_name\<close>: the argument is \<open>None\<close> or a string; \<open>not custodian_ref\<close>
  holds for \<open>None\<close> and for the empty string.
\<close>

definition extract_custodian_name :: "string option \<Rightarrow> string option" where
  "extract_custodian_name custodian_ref =
     (case custodian_ref of
        None \<Rightarrow> None
      | Some r \<Rightarrow>
          if r = [] then None
          else (let parts = split CHR ''_'' r
                in if length parts \<ge> 2 then Some (''CUSTODIAN_'' @ parts ! 1) else None))"

text \<open>
  \<open>session.query(Account).filter_by(account_id=account_id).first()\<close> on the rows the
  session sees.
\<close>

definition query_account :: "store \<Rightarrow> string \<Rightarrow> account option" where
  "query_account s aid = find (\<lambda>a. a_account_id a = aid) (accounts s)"

text \<open>Python truthiness of an optional string: \<open>None\<close> and \<open>""\<close> are false.\<close>

definition truthy :: "string option \<Rightarrow> bool" where
  "truthy v = (case v of None \<Rightarrow> False | Some x \<Rightarrow> x \<noteq> [])"

text \<open>Assigning \<open>account.custodian_name\<close> on the row that \<open>first()\<close> returned.\<close>

fun set_custodian :: "string \<Rightarrow> string option \<Rightarrow> account list \<Rightarrow> account list" where
  "set_custodian aid c [] = []"
| "set_custodian aid c (a # as) =
     (if a_account_id a = aid then a\<lparr>a_custodian_name := c\<rparr> # as
      else a # set_custodian aid c as)"

text \<open>
  \<open>ensure_account_exists\<close> on the rows the session sees, once its query has returned.
  The query itself, which flushes first and can raise, is \<open>session_ensure_account_exists\<close>
  below.
\<close>

definition ensure_account_exists :: "store \<Rightarrow> string \<Rightarrow> string option \<Rightarrow> store" where
  "ensure_account_exists s aid custodian =
     (case query_account s aid of
        None \<Rightarrow>
          s\<lparr>accounts := accounts s @ [\<lparr>a_account_id = aid, a_custodian_name = custodian\<rparr>]\<rparr>
      | Some acct \<Rightarrow>
          if truthy custodian \<and> \<not> truthy (a_custodian_name acct)
          then s\<lparr>accounts := set_custodian aid custodian (accounts s)\<rparr>
          else s)"

section \<open>Record validators (validators.py)\<close>

text \<open>
  A raw row is what \<open>csv.DictReader\<close> hands to the validator. For each aliased column
  it holds the value the cell has after pydantic's lexical coercion to the field's type,
  and \<open>None\<close> where the column is missing or its text does not coerce (not an integer,
  not a decimal, not a date of the format). \<open>extra_cells\<close> says that the line has more
  cells than the header: the reader puts them under the key \<open>None\<close>, and the call
  \<open>TradeFormat1(**row)\<close> raises \<open>TypeError\<close> before it validates anything. \<open>error\<close> is
  the text \<open>str(e)\<close> of the exception that the call raises for this row, when it raises;
  the text is the library's, so it comes with the row.
  A validator returns \<open>Inr\<close> the validated record or \<open>Inl\<close> that text.
  \<open>min_length\<close>/\<open>max_length\<close> count characters.
\<close>

datatype TradeType = BUY | SELL

definition TradeType_value :: "TradeType \<Rightarrow> string" where
  "TradeType_value t = (case t of BUY \<Rightarrow> ''BUY'' | SELL \<Rightarrow> ''SELL'')"

definition parse_TradeType :: "string \<Rightarrow> TradeType option" where
  "parse_TradeType v = (if v = ''BUY'' then Some BUY else if v = ''SELL'' then Some SELL else None)"

record raw_format1 =
  r1_TradeDate :: "date option"
  r1_AccountID :: "string option"
  r1_Ticker :: "string option"
  r1_Quantity :: "int option"
  r1_Price :: "rat option"
  r1_TradeType :: "string option"
  r1_SettlementDate :: "date option"
  r1_extra_cells :: bool
  r1_error :: string

record TradeFormat1_rec =
  v1_trade_date :: date
  v1_account_id :: string
  v1_ticker :: string
  v1_quantity :: int
  v1_price :: rat
  v1_trade_type :: TradeType
  v1_settlement_date :: date

definition TradeFormat1 :: "raw_format1 \<Rightarrow> string + TradeFormat1_rec" where
  "TradeFormat1 row =
     (if r1_extra_cells row then Inl (r1_error row) else
      (case r1_TradeDate row of None \<Rightarrow> Inl (r1_error row) | Some td \<Rightarrow>
      (case r1_AccountID row of None \<Rightarrow> Inl (r1_error row) | Some a \<Rightarrow>
      if length a < 1 \<or> length a > 50 then Inl (r1_error row) else
      (case r1_Ticker row of None \<Rightarrow> Inl (r1_error row) | Some tk \<Rightarrow>
      if length tk < 1 \<or> length tk > 20 then Inl (r1_error row) else
      (case r1_Quantity row of None \<Rightarrow> Inl (r1_error row) | Some q \<Rightarrow>
      if \<not> q > 0 then Inl (r1_error row) else
      (case r1_Price row of None \<Rightarrow> Inl (r1_error row) | Some p \<Rightarrow>
      if \<not> p > 0 then Inl (r1_error row) else
      (case r1_TradeType row of None \<Rightarrow> Inl (r1_error row) | Some tt \<Rightarrow>
      (case parse_TradeType tt of None \<Rightarrow> Inl (r1_error row) | Some ty \<Rightarrow>
      (case r1_SettlementDate row of None \<Rightarrow> Inl (r1_error row) | Some sd \<Rightarrow>
      if sd < td then Inl (r1_error row)
      else Inr \<lparr>v1_trade_date = td, v1_account_id = a, v1_ticker = tk, v1_quantity = q,
                v1_price = p, v1_trade_type = ty, v1_settlement_date = sd\<rparr>)))))))))"

record raw_format2 =
  r2_REPORT_DATE :: "date option"
  r2_ACCOUNT_ID :: "string option"
  r2_SECURITY_TICKER :: "string option"
  r2_SHARES :: "int option"
  r2_MARKET_VALUE :: "rat option"
  r2_SOURCE_SYSTEM :: "string option"
  r2_extra_cells :: bool
  r2_error :: string

record TradeFormat2_rec =
  v2_report_date :: date
  v2_account_id :: string
  v2_ticker :: string
  v2_shares :: int
  v2_market_value :: rat
  v2_source_system :: string

text \<open>\<open>check_market_value_sign\<close> returns its argument on every path, so it adds no check.\<close>

definition TradeFormat2 :: "raw_format2 \<Rightarrow> string + TradeFormat2_rec" where
  "TradeFormat2 row =
     (if r2_extra_cells row then Inl (r2_error row) else
      (case r2_REPORT_DATE row of None \<Rightarrow> Inl (r2_error row) | Some rd \<Rightarrow>
      (case r2_ACCOUNT_ID row of None \<Rightarrow> Inl (r2_error row) | Some a \<Rightarrow>
      if length a < 1 \<or> length a > 50 then Inl (r2_error row) else
      (case r2_SECURITY_TICKER row of None \<Rightarrow> Inl (r2_error row) | Some tk \<Rightarrow>
      if length tk < 1 \<or> length tk > 20 then Inl (r2_error row) else
      (case r2_SHARES row of None \<Rightarrow> Inl (r2_error row) | Some sh \<Rightarrow>
      (case r2_MARKET_VALUE row of None \<Rightarrow> Inl (r2_error row) | Some mv \<Rightarrow>
      (case r2_SOURCE_SYSTEM row of None \<Rightarrow> Inl (r2_error row) | Some src \<Rightarrow>
      if length src < 1 then Inl (r2_error row)
      else Inr \<lparr>v2_report_date = rd, v2_account_id = a, v2_ticker = tk, v2_shares = sh,
                v2_market_value = mv, v2_source_system = src\<rparr>)))))))"

record raw_position =
  rp_account_id :: "string option"
  rp_ticker :: "string option"
  rp_shares :: "int option"
  rp_market_value :: "rat option"
  rp_custodian_ref :: "string option"

record BankPosition_rec =
  bp_account_id :: string
  bp_ticker :: string
  bp_shares :: int
  bp_market_value :: rat
  bp_custodian_ref :: string

text \<open>
  One entry of \<open>positions\<close>; \<open>None\<close> when it fails validation (the exception is
  raised for the document as a whole, with the document's text).
\<close>

definition BankPosition :: "raw_position \<Rightarrow> BankPosition_rec option" where
  "BankPosition row =
     (case rp_account_id row of None \<Rightarrow> None | Some a \<Rightarrow>
      if length a < 1 \<or> length a > 50 then None else
      (case rp_ticker row of None \<Rightarrow> None | Some tk \<Rightarrow>
      if length tk < 1 \<or> length tk > 20 then None else
      (case rp_shares row of None \<Rightarrow> None | Some sh \<Rightarrow>
      (case rp_market_value row of None \<Rightarrow> None | Some mv \<Rightarrow>
      (case rp_custodian_ref row of None \<Rightarrow> None | Some cr \<Rightarrow>
      if length cr < 1 then None
      else Some \<lparr>bp_account_id = a, bp_ticker = tk, bp_shares = sh, bp_market_value = mv,
                 bp_custodian_ref = cr\<rparr>)))))"

text \<open>
  The document that \<open>yaml.safe_load\<close> returns. \<open>doc_report_date\<close> is the date its
  \<open>report_date\<close> denotes when that is a string of eight digits that \<open>strptime\<close> accepts
  as \<open>%Y%m%d\<close>, and \<open>None\<close> otherwise. \<open>positions: List[BankPosition]\<close> validates
  every entry when the file model is built: one invalid entry fails
  \<open>BankPositionFile(**data)\<close>. \<open>doc_error\<close> is the text of the exception that call
  raises for this document, when it raises.
\<close>

record raw_document =
  doc_report_date :: "date option"
  doc_positions :: "raw_position list"
  doc_error :: string

record BankPositionFile_rec =
  bf_report_date :: date
  bf_positions :: "BankPosition_rec list"

fun validate_positions :: "raw_position list \<Rightarrow> BankPosition_rec list option" where
  "validate_positions [] = Some []"
| "validate_positions (row # rows) =
     (case BankPosition row of
        None \<Rightarrow> None
      | Some v \<Rightarrow> (case validate_positions rows of None \<Rightarrow> None | Some vs \<Rightarrow> Some (v # vs)))"

definition BankPositionFile :: "raw_document \<Rightarrow> string + BankPositionFile_rec" where
  "BankPositionFile data =
     (case doc_report_date data of
        None \<Rightarrow> Inl (doc_error data)
      | Some rd \<Rightarrow>
          (case validate_positions (doc_positions data) of
             None \<Rightarrow> Inl (doc_error data)
           | Some ps \<Rightarrow> Inr \<lparr>bf_report_date = rd, bf_positions = ps\<rparr>))"

section \<open>The libraries under the ingestion code\<close>

text \<open>
  What the ingestion code gets from CPython, SQLAlchemy and SQLite and does not decide
  itself is a parameter of the model:
  \<^item> \<open>decimal_result\<close>: the rounding of the result of a \<open>Decimal\<close> operation to the
    precision of the context;
  \<^item> \<open>numeric2\<close>: the amount a session reads back from a \<open>Numeric(_, 2)\<close> column for the
    amount that was written to it;
  \<^item> \<open>overflow_text\<close>: the text of the exception a flush raises for an integer that
    SQLite cannot hold; \<open>pending_rollback_text\<close>: the text of the exception a session
    raises on every use after a failed flush, until it is rolled back.
\<close>

record library =
  decimal_result :: "rat \<Rightarrow> rat"
  numeric2 :: "rat \<Rightarrow> rat"
  overflow_text :: string
  pending_rollback_text :: string

text \<open>An SQLite \<open>INTEGER\<close> holds a signed 64-bit value; the driver refuses any other.\<close>

definition storable_int :: "int \<Rightarrow> bool" where
  "storable_int i = (- (2 ^ 63) \<le> i \<and> i < 2 ^ 63)"

text \<open>A row as the session reads it back once it is written.\<close>

definition stored_trade :: "library \<Rightarrow> trade \<Rightarrow> trade" where
  "stored_trade lib t =
     t\<lparr>t_price := map_option (numeric2 lib) (t_price t),
       t_market_value := map_option (numeric2 lib) (t_market_value t)\<rparr>"

definition stored_position :: "library \<Rightarrow> position \<Rightarrow> position" where
  "stored_position lib p = p\<lparr>p_market_value := numeric2 lib (p_market_value p)\<rparr>"

subsection \<open>The session of one ingestion call\<close>

text \<open>
  The session is made by \<open>sessionmaker(bind=engine)\<close> (models.py, \<open>get_session\<close>), so it
  flushes before every query. \<open>begun\<close> holds the rows at the start of the call, to
  which \<open>session.rollback()\<close> returns; \<open>current\<close> the rows of the transaction; the
  pending lists the trades and positions passed to \<open>session.add\<close> and not flushed yet.
  A flush writes the pending rows; when one of them holds an integer SQLite cannot hold,
  the flush raises, the transaction is rolled back and the session is \<open>inactive\<close>.
  An account that is added or changed is written to \<open>current\<close> at once: the loops query
  the account right after \<open>ensure_account_exists\<close>, that query flushes it, and the insert
  or update of an account row cannot fail.
\<close>

record session =
  begun :: store
  current :: store
  pending_trades :: "trade list"
  pending_positions :: "position list"
  inactive :: bool

definition begin_session :: "store \<Rightarrow> session" where
  "begin_session db =
     \<lparr>begun = db, current = db, pending_trades = [], pending_positions = [], inactive = False\<rparr>"

text \<open>
  Whether every pending row can be written, and the rows of the transaction once the
  pending ones are written.
\<close>

definition storable_pending :: "session \<Rightarrow> bool" where
  "storable_pending ss =
     (list_all (\<lambda>t. storable_int (t_quantity t)) (pending_trades ss) \<and>
      list_all (\<lambda>p. storable_int (p_shares p)) (pending_positions ss))"

definition flushed :: "library \<Rightarrow> session \<Rightarrow> store" where
  "flushed lib ss =
     (current ss)
       \<lparr>trades := trades (current ss) @ map (stored_trade lib) (pending_trades ss),
        positions := positions (current ss) @ map (stored_position lib) (pending_positions ss)\<rparr>"

text \<open>A flush: the session after it, and the text of the exception if it raised.\<close>

definition flush :: "library \<Rightarrow> session \<Rightarrow> session \<times> string option" where
  "flush lib ss =
     (if storable_pending ss
      then (ss\<lparr>current := flushed lib ss, pending_trades := [], pending_positions := []\<rparr>, None)
      else (ss\<lparr>current := begun ss, pending_trades := [], pending_positions := [],
               inactive := True\<rparr>, Some (overflow_text lib)))"

text \<open>
  \<open>session.query(Account).filter_by(account_id=account_id).first()\<close>: \<open>Inl\<close> the text of
  the exception it raises, or \<open>Inr\<close> the account found.
\<close>

definition session_query_account ::
  "library \<Rightarrow> session \<Rightarrow> string \<Rightarrow> session \<times> (string + account option)" where
  "session_query_account lib ss aid =
     (if inactive ss then (ss, Inl (pending_rollback_text lib))
      else (case flush lib ss of
              (ss, Some e) \<Rightarrow> (ss, Inl e)
            | (ss, None) \<Rightarrow> (ss, Inr (query_account (current ss) aid))))"

text \<open>\<open>ensure_account_exists(session, account_id, custodian)\<close>, with the exception.\<close>

definition session_ensure_account_exists ::
  "library \<Rightarrow> session \<Rightarrow> string \<Rightarrow> string option \<Rightarrow> session \<times> string option" where
  "session_ensure_account_exists lib ss aid custodian =
     (case session_query_account lib ss aid of
        (ss, Inl e) \<Rightarrow> (ss, Some e)
      | (ss, Inr found) \<Rightarrow>
          (ss\<lparr>current := ensure_account_exists (current ss) aid custodian\<rparr>, None))"

text \<open>\<open>session.commit()\<close>: \<open>Inl\<close> the text of the exception, or \<open>Inr\<close> the rows kept.\<close>

definition commit :: "library \<Rightarrow> session \<Rightarrow> string + store" where
  "commit lib ss =
     (if inactive ss then Inl (pending_rollback_text lib)
      else (case flush lib ss of
              (ss, Some e) \<Rightarrow> Inl e
            | (ss, None) \<Rightarrow> Inr (current ss)))"

section \<open>Ingestion pipeline (ingestion.py)\<close>

text \<open>Decimal rendering of a row number, as the f-string \<open>{row_num}\<close> does.\<close>

fun str_nat :: "nat \<Rightarrow> string" where
  "str_nat n =
     (if n < 10 then [''0123456789'' ! n]
      else str_nat (n div 10) @ [''0123456789'' ! (n mod 10)])"

declare str_nat.simps [simp del]

text \<open>
  What iterating \<open>csv.DictReader\<close> over the opened file yields: a row (the reader skips
  empty lines, so rows are numbered as they are yielded, from 2), or an exception raised
  outside the per-row \<open>try\<close> (the file cannot be opened or decoded, the reader fails),
  which ends the loop in the outer handler.
\<close>

datatype 'r csv_event = Row 'r | ReadError string

text \<open>
  The two statements that every loop runs for a validated record:
  \<open>account = ensure_account_exists(...)\<close> and
  \<open>if not session.query(Account)...first(): report.new_accounts_created += 1\<close>.
  \<open>Inl\<close>: the text of the exception raised; \<open>Inr\<close>: the report after them.
\<close>

definition account_step ::
  "library \<Rightarrow> session \<Rightarrow> DataQualityReport \<Rightarrow> string \<Rightarrow> string option \<Rightarrow>
   session \<times> (string + DataQualityReport)" where
  "account_step lib ss report aid custodian =
     (case session_ensure_account_exists lib ss aid custodian of
        (ss, Some e) \<Rightarrow> (ss, Inl e)
      | (ss, None) \<Rightarrow>
          (case session_query_account lib ss aid of
             (ss, Inl e) \<Rightarrow> (ss, Inl e)
           | (ss, Inr found) \<Rightarrow>
               (ss, Inr (if found = None
                         then report\<lparr>new_accounts_created := new_accounts_created report + 1\<rparr>
                         else report))))"

text \<open>The \<open>except\<close> branch of the row loops.\<close>

definition row_failed :: "DataQualityReport \<Rightarrow> nat \<Rightarrow> string \<Rightarrow> DataQualityReport" where
  "row_failed report row_num e =
     report\<lparr>records_failed := records_failed report + 1,
            errors := errors report @ [''Row '' @ str_nat row_num @ '': '' @ e]\<rparr>"

text \<open>
  The \<open>Trade(...)\<close> that \<open>ingest_trade_format1\<close> builds from a validated row, with
  the report's \<open>file_format\<close> and \<open>file_name\<close>.
\<close>

definition signed_quantity :: "TradeFormat1_rec \<Rightarrow> int" where
  "signed_quantity validated =
     (let quantity = v1_quantity validated
      in if TradeType_value (v1_trade_type validated) = ''SELL'' then - quantity else quantity)"

definition format1_trade :: "library \<Rightarrow> string \<Rightarrow> string \<Rightarrow> TradeFormat1_rec \<Rightarrow> trade" where
  "format1_trade lib fmt fname validated =
     (let quantity = signed_quantity validated;
          market_value = decimal_result lib (v1_price validated * of_int (abs quantity))
      in \<lparr>t_trade_date = v1_trade_date validated,
          t_account_id = v1_account_id validated,
          t_ticker = v1_ticker validated,
          t_quantity = quantity,
          t_price = Some (v1_price validated),
          t_trade_type = Some (TradeType_value (v1_trade_type validated)),
          t_settlement_date = Some (v1_settlement_date validated),
          t_market_value = Some market_value,
          t_source_system = None,
          t_file_format = fmt,
          t_source_file = fname\<rparr>)"

text \<open>
  The \<open>for\<close> loop of \<open>ingest_trade_format1\<close>. It returns the exception that left
  the loop, if one did, with the session and the report as they are at that moment.
\<close>

fun format1_rows ::
  "library \<Rightarrow> session \<Rightarrow> DataQualityReport \<Rightarrow> nat \<Rightarrow> raw_format1 csv_event list \<Rightarrow>
   string option \<times> session \<times> DataQualityReport" where
  "format1_rows lib ss report row_num [] = (None, ss, report)"
| "format1_rows lib ss report row_num (ReadError e # rest) = (Some e, ss, report)"
| "format1_rows lib ss report row_num (Row row # rest) =
     (let report = report\<lparr>records_processed := records_processed report + 1\<rparr>
      in case TradeFormat1 row of
           Inl e \<Rightarrow> format1_rows lib ss (row_failed report row_num e) (row_num + 1) rest
         | Inr validated \<Rightarrow>
             (case account_step lib ss report (v1_account_id validated) None of
                (ss, Inl e) \<Rightarrow>
                  format1_rows lib ss (row_failed report row_num e) (row_num + 1) rest
              | (ss, Inr report) \<Rightarrow>
                  format1_rows lib
                    (ss\<lparr>pending_trades := pending_trades ss @
                          [format1_trade lib (file_format report) (file_name report) validated]\<rparr>)
                    (report\<lparr>records_valid := records_valid report + 1\<rparr>) (row_num + 1) rest))"

text \<open>The outer handler: \<open>session.rollback()\<close> and one more entry in \<open>errors\<close>.\<close>

definition file_failed :: "DataQualityReport \<Rightarrow> string \<Rightarrow> DataQualityReport" where
  "file_failed report e = report\<lparr>errors := errors report @ [''File processing error: '' @ e]\<rparr>"

definition ingest_trade_format1 ::
  "library \<Rightarrow> store \<Rightarrow> string \<Rightarrow> raw_format1 csv_event list \<Rightarrow> store \<times> DataQualityReport" where
  "ingest_trade_format1 lib db fname file =
     (case format1_rows lib (begin_session db) (new_report fname ''CSV_FORMAT1'') 2 file of
        (Some e, ss, report) \<Rightarrow> (db, file_failed report e)
      | (None, ss, report) \<Rightarrow>
          (case commit lib ss of
             Inl e \<Rightarrow> (db, file_failed report e)
           | Inr committed \<Rightarrow> (committed, report)))"

text \<open>\<open>derived_price\<close>: a \<open>Decimal\<close> division and a \<open>Decimal\<close> \<open>abs\<close>.\<close>

definition derived_price :: "library \<Rightarrow> TradeFormat2_rec \<Rightarrow> rat option" where
  "derived_price lib v =
     (if v2_shares v \<noteq> 0
      then Some (decimal_result lib
                   (abs (decimal_result lib (v2_market_value v / of_int (v2_shares v)))))
      else None)"

definition format2_trade :: "library \<Rightarrow> string \<Rightarrow> string \<Rightarrow> TradeFormat2_rec \<Rightarrow> trade" where
  "format2_trade lib fmt fname validated =
     \<lparr>t_trade_date = v2_report_date validated,
      t_account_id = v2_account_id validated,
      t_ticker = v2_ticker validated,
      t_quantity = v2_shares validated,
      t_price = derived_price lib validated,
      t_trade_type = None,
      t_settlement_date = None,
      t_market_value = Some (v2_market_value validated),
      t_source_system = Some (v2_source_system validated),
      t_file_format = fmt,
      t_source_file = fname\<rparr>"

text \<open>The set \<open>custodians\<close> is a duplicate-free list; \<open>add\<close> is \<open>List.insert\<close>.\<close>

fun format2_rows ::
  "library \<Rightarrow> session \<Rightarrow> DataQualityReport \<Rightarrow> string list \<Rightarrow> nat \<Rightarrow>
   raw_format2 csv_event list \<Rightarrow> string option \<times> session \<times> DataQualityReport \<times> string list" where
  "format2_rows lib ss report custodians row_num [] = (None, ss, report, custodians)"
| "format2_rows lib ss report custodians row_num (ReadError e # rest) =
     (Some e, ss, report, custodians)"
| "format2_rows lib ss report custodians row_num (Row row # rest) =
     (let report = report\<lparr>records_processed := records_processed report + 1\<rparr>
      in case TradeFormat2 row of
           Inl e \<Rightarrow>
             format2_rows lib ss (row_failed report row_num e) custodians (row_num + 1) rest
         | Inr validated \<Rightarrow>
             (let custodians = List.insert (v2_source_system validated) custodians
              in case account_step lib ss report (v2_account_id validated)
                        (Some (v2_source_system validated)) of
                   (ss, Inl e) \<Rightarrow>
                     format2_rows lib ss (row_failed report row_num e) custodians
                       (row_num + 1) rest
                 | (ss, Inr report) \<Rightarrow>
                     format2_rows lib
                       (ss\<lparr>pending_trades := pending_trades ss @
                             [format2_trade lib (file_format report) (file_name report)
                                validated]\<rparr>)
                       (report\<lparr>records_valid := records_valid report + 1\<rparr>)
                       custodians (row_num + 1) rest))"

definition ingest_trade_format2 ::
  "library \<Rightarrow> store \<Rightarrow> string \<Rightarrow> raw_format2 csv_event list \<Rightarrow> store \<times> DataQualityReport" where
  "ingest_trade_format2 lib db fname file =
     (case format2_rows lib (begin_session db) (new_report fname ''PIPE_FORMAT2'') [] 2 file of
        (Some e, ss, report, custodians) \<Rightarrow> (db, file_failed report e)
      | (None, ss, report, custodians) \<Rightarrow>
          (case commit lib ss of
             Inl e \<Rightarrow> (db, file_failed report e)
           | Inr committed \<Rightarrow> (committed, report\<lparr>custodians_detected := sort custodians\<rparr>)))"

definition bank_position :: "string \<Rightarrow> date \<Rightarrow> BankPosition_rec \<Rightarrow> position" where
  "bank_position fname report_date position_data =
     \<lparr>p_report_date = report_date,
      p_account_id = bp_account_id position_data,
      p_ticker = bp_ticker position_data,
      p_shares = bp_shares position_data,
      p_market_value = bp_market_value position_data,
      p_custodian_ref = Some (bp_custodian_ref position_data),
      p_source_file = fname\<rparr>"

text \<open>The \<open>except\<close> branch of the position loop: its entry names no position.\<close>

definition position_failed :: "DataQualityReport \<Rightarrow> string \<Rightarrow> DataQualityReport" where
  "position_failed report e =
     report\<lparr>records_failed := records_failed report + 1,
            errors := errors report @ [''Position record: '' @ e]\<rparr>"

text \<open>
  The \<open>for\<close> loop of \<open>ingest_bank_positions\<close> over the validated positions. The
  positions are valid when it starts, so only the session can raise in its body.
\<close>

fun bank_rows ::
  "library \<Rightarrow> session \<Rightarrow> DataQualityReport \<Rightarrow> string list \<Rightarrow> date \<Rightarrow>
   BankPosition_rec list \<Rightarrow> session \<times> DataQualityReport \<times> string list" where
  "bank_rows lib ss report custodians report_date [] = (ss, report, custodians)"
| "bank_rows lib ss report custodians report_date (position_data # rest) =
     (let report = report\<lparr>records_processed := records_processed report + 1\<rparr>;
          custodian = extract_custodian_name (Some (bp_custodian_ref position_data));
          custodians = (case custodian of
                          None \<Rightarrow> custodians
                        | Some c \<Rightarrow> if c \<noteq> [] then List.insert c custodians else custodians)
      in case account_step lib ss report (bp_account_id position_data) custodian of
           (ss, Inl e) \<Rightarrow>
             bank_rows lib ss (position_failed report e) custodians report_date rest
         | (ss, Inr report) \<Rightarrow>
             bank_rows lib
               (ss\<lparr>pending_positions := pending_positions ss @
                     [bank_position (file_name report) report_date position_data]\<rparr>)
               (report\<lparr>records_valid := records_valid report + 1\<rparr>)
               custodians report_date rest)"

text \<open>
  What \<open>open\<close> and \<open>yaml.safe_load\<close> give: an exception (also when the loaded value
  is not a mapping, so that \<open>BankPositionFile(**data)\<close> cannot be called), or the loaded
  document.
\<close>

datatype yaml_file = LoadError string | Document raw_document

definition ingest_bank_positions ::
  "library \<Rightarrow> store \<Rightarrow> string \<Rightarrow> yaml_file \<Rightarrow> store \<times> DataQualityReport" where
  "ingest_bank_positions lib db fname file =
     (let report = new_report fname ''YAML_POSITIONS''
      in case file of
           LoadError e \<Rightarrow> (db, file_failed report e)
         | Document data \<Rightarrow>
             (case BankPositionFile data of
                Inl e \<Rightarrow> (db, file_failed report e)
              | Inr validated_file \<Rightarrow>
                  (case bank_rows lib (begin_session db) report [] (bf_report_date validated_file)
                          (bf_positions validated_file) of
                     (ss, report, custodians) \<Rightarrow>
                       (case commit lib ss of
                          Inl e \<Rightarrow> (db, file_failed report e)
                        | Inr committed \<Rightarrow>
                            (committed, report\<lparr>custodians_detected := sort custodians\<rparr>)))))"

text \<open>
  An uploaded file: its name, and what each of the three readers makes of its bytes.
  \<open>ingest_file\<close> picks the reader by the declared format.
\<close>

record upload =
  f_name :: string
  as_csv :: "raw_format1 csv_event list"
  as_pipe :: "raw_format2 csv_event list"
  as_yaml :: yaml_file

definition ingest_file ::
  "library \<Rightarrow> store \<Rightarrow> upload \<Rightarrow> string \<Rightarrow> store \<times> DataQualityReport" where
  "ingest_file lib db file fmt =
     (if fmt = ''CSV_FORMAT1'' then ingest_trade_format1 lib db (f_name file) (as_csv file)
      else if fmt = ''PIPE_FORMAT2'' then ingest_trade_format2 lib db (f_name file) (as_pipe file)
      else if fmt = ''YAML_POSITIONS'' then ingest_bank_positions lib db (f_name file) (as_yaml file)
      else (db, (new_report (f_name file) fmt)\<lparr>errors := [''Unknown file format: '' @ fmt]\<rparr>))"

text \<open>A sequence of ingestion calls, each on the store the previous one left.\<close>

fun ingest_calls :: "library \<Rightarrow> (upload \<times> string) list \<Rightarrow> store \<Rightarrow> store" where
  "ingest_calls lib [] s = s"
| "ingest_calls lib ((file, fmt) # calls) s =
     ingest_calls lib calls (fst (ingest_file lib s file fmt))"

section \<open>The libraries as they are\<close>

text \<open>
  For amounts in the range of normal doubles: the \<open>Decimal\<close> context rounds a result to
  28 significant digits, half to even; SQLAlchemy's SQLite dialect writes a \<open>Decimal\<close>
  as the nearest double and reads it back as the \<open>Decimal\<close> of \<open>"%.2f" % value\<close>.
  The texts are those of the \<open>sqlite3\<close> driver and of SQLAlchemy 2.0, for a flush that
  failed on an integer.
\<close>

definition round_half_even :: "rat \<Rightarrow> int" where
  "round_half_even x =
     (let f = \<lfloor>x\<rfloor>; r = x - of_int f
      in if r < 1 / 2 then f else if 1 / 2 < r then f + 1 else if even f then f else f + 1)"

text \<open>The number of digits of \<open>n\<close> in base \<open>b\<close>.\<close>

fun digits :: "nat \<Rightarrow> nat \<Rightarrow> nat" where
  "digits b n = (if n = 0 \<or> b \<le> 1 then 0 else Suc (digits b (n div b)))"

declare digits.simps [simp del]

definition power_of :: "nat \<Rightarrow> int \<Rightarrow> rat" where
  "power_of b e = (if 0 \<le> e then of_nat b ^ nat e else 1 / of_nat b ^ nat (- e))"

text \<open>
  The exponent \<open>k\<close> of a positive \<open>a\<close> in base \<open>b\<close>:
  \<open>b ^ k \<le> a < b ^ (k + 1)\<close>.
\<close>

definition exponent_of :: "nat \<Rightarrow> rat \<Rightarrow> int" where
  "exponent_of b a =
     (if 1 \<le> a then int (digits b (nat \<lfloor>a\<rfloor>)) - 1
      else (let j = int (digits b (nat \<lfloor>1 / a\<rfloor>)) - 1
            in if power_of b (- j) \<le> a then - j else - j - 1))"

text \<open>\<open>x\<close> rounded, half to even, to \<open>p\<close> significant digits in base \<open>b\<close>.\<close>

definition round_to_precision :: "nat \<Rightarrow> nat \<Rightarrow> rat \<Rightarrow> rat" where
  "round_to_precision b p x =
     (if x = 0 then 0
      else (let e = exponent_of b \<bar>x\<bar> - (int p - 1)
            in sgn x * of_int (round_half_even (\<bar>x\<bar> / power_of b e)) * power_of b e))"

definition sqlite_library :: library where
  "sqlite_library =
     \<lparr>decimal_result = round_to_precision 10 28,
      numeric2 = (\<lambda>x. of_int (round_half_even (round_to_precision 2 53 x * 100)) / 100),
      overflow_text = ''Python int too large to convert to SQLite INTEGER'',
      pending_rollback_text =
        ''This Session's transaction has been rolled back due to a previous exception '' @
        ''during flush. To begin a new transaction with this Session, first issue '' @
        ''Session.rollback(). Original exception was: Python int too large to convert '' @
        ''to SQLite INTEGER (Background on this error at: https://sqlalche.me/e/20/7s2a)''\<rparr>"

section \<open>Queries (app.py)\<close>

text \<open>
  A Python \<open>dict\<close> is an association list in insertion order: \<open>map_of\<close> looks a key up,
  \<open>AList.update\<close> replaces the value of a present key where it stands and appends a new
  key at the end. \<open>if x:\<close> on an optional \<open>Decimal\<close> is false for \<open>None\<close> and for zero.
\<close>

subsection \<open>Positions derived from trades: \<open>calculate_positions_from_trades\<close>\<close>

record cost_entry =
  ce_shares :: int
  ce_total_cost :: rat

definition add_trade_cost :: "trade \<Rightarrow> cost_entry \<Rightarrow> cost_entry" where
  "add_trade_cost trade e =
     (let e = e\<lparr>ce_shares := ce_shares e + t_quantity trade\<rparr>
      in case t_price trade of
           Some pr \<Rightarrow>
             if pr \<noteq> 0
             then e\<lparr>ce_total_cost := ce_total_cost e + pr * of_int (abs (t_quantity trade))\<rparr>
             else (case t_market_value trade of
                     Some mv \<Rightarrow> if mv \<noteq> 0 then e\<lparr>ce_total_cost := ce_total_cost e + abs mv\<rparr> else e
                   | None \<Rightarrow> e)
         | None \<Rightarrow>
             (case t_market_value trade of
                Some mv \<Rightarrow> if mv \<noteq> 0 then e\<lparr>ce_total_cost := ce_total_cost e + abs mv\<rparr> else e
              | None \<Rightarrow> e))"

fun cost_positions_map :: "trade list \<Rightarrow> (string \<times> cost_entry) list \<Rightarrow> (string \<times> cost_entry) list" where
  "cost_positions_map [] positions_map = positions_map"
| "cost_positions_map (trade # rest) positions_map =
     (let e = (case map_of positions_map (t_ticker trade) of
                 None \<Rightarrow> \<lparr>ce_shares = 0, ce_total_cost = 0\<rparr>
               | Some e \<Rightarrow> e)
      in cost_positions_map rest
           (AList.update (t_ticker trade) (add_trade_cost trade e) positions_map))"

record derived_position =
  dp_ticker :: string
  dp_shares :: int
  dp_cost_basis :: rat
  dp_total_cost :: rat
  dp_market_value :: "rat option"
  dp_note :: string

fun derived_result :: "(string \<times> cost_entry) list \<Rightarrow> derived_position list" where
  "derived_result [] = []"
| "derived_result ((ticker, data) # rest) =
     (if ce_shares data \<noteq> 0
      then \<lparr>dp_ticker = ticker,
            dp_shares = ce_shares data,
            dp_cost_basis = (if ce_shares data \<noteq> 0
                             then ce_total_cost data / of_int (ce_shares data) else 0),
            dp_total_cost = ce_total_cost data,
            dp_market_value = None,
            dp_note = ''Calculated from trades; no current market value''\<rparr> # derived_result rest
      else derived_result rest)"

text \<open>The 404 answer ("No trade or position data found") or the 200 answer's positions.\<close>

datatype positions_response = NoData | Positions "derived_position list"

definition calculate_positions_from_trades :: "store \<Rightarrow> string \<Rightarrow> date \<Rightarrow> positions_response" where
  "calculate_positions_from_trades session account_id query_date =
     (let trades = filter (\<lambda>t. t_account_id t = account_id \<and> t_trade_date t \<le> query_date)
                     (trades session)
      in if trades = [] then NoData
         else Positions (derived_result (cost_positions_map trades [])))"

subsection \<open>Concentration compliance: \<open>compliance_concentration\<close>\<close>

definition threshold :: rat where
  "threshold = 20 / 100"

record value_entry =
  ve_shares :: int
  ve_total_value :: rat

definition add_trade_value :: "trade \<Rightarrow> value_entry \<Rightarrow> value_entry" where
  "add_trade_value trade e =
     (let e = e\<lparr>ve_shares := ve_shares e + t_quantity trade\<rparr>
      in case t_price trade of
           Some pr \<Rightarrow>
             if pr \<noteq> 0
             then e\<lparr>ve_total_value := ve_total_value e + pr * of_int (t_quantity trade)\<rparr>
             else (case t_market_value trade of
                     Some mv \<Rightarrow> if mv \<noteq> 0 then e\<lparr>ve_total_value := ve_total_value e + mv\<rparr> else e
                   | None \<Rightarrow> e)
         | None \<Rightarrow>
             (case t_market_value trade of
                Some mv \<Rightarrow> if mv \<noteq> 0 then e\<lparr>ve_total_value := ve_total_value e + mv\<rparr> else e
              | None \<Rightarrow> e))"

fun value_positions_map ::
  "trade list \<Rightarrow> ((string \<times> string) \<times> value_entry) list \<Rightarrow> ((string \<times> string) \<times> value_entry) list" where
  "value_positions_map [] positions_map = positions_map"
| "value_positions_map (trade # rest) positions_map =
     (let key = (t_account_id trade, t_ticker trade);
          e = (case map_of positions_map key of
                 None \<Rightarrow> \<lparr>ve_shares = 0, ve_total_value = 0\<rparr>
               | Some e \<Rightarrow> e)
      in value_positions_map rest (AList.update key (add_trade_value trade e) positions_map))"

record trade_pos =
  tp_ticker :: string
  tp_shares :: int
  tp_market_value :: rat

fun group_account_positions ::
  "((string \<times> string) \<times> value_entry) list \<Rightarrow> (string \<times> trade_pos list) list \<Rightarrow>
   (string \<times> trade_pos list) list" where
  "group_account_positions [] account_positions = account_positions"
| "group_account_positions (((account_id, ticker), data) # rest) account_positions =
     (if ve_shares data = 0 then group_account_positions rest account_positions
      else
        (let positions_list = (case map_of account_positions account_id of
                                 None \<Rightarrow> [] | Some l \<Rightarrow> l)
         in group_account_positions rest
              (AList.update account_id
                 (positions_list @ [\<lparr>tp_ticker = ticker, tp_shares = ve_shares data,
                                      tp_market_value = ve_total_value data\<rparr>])
                 account_positions)))"

record violation =
  v_account_id :: string
  v_ticker :: string
  v_shares :: int
  v_market_value :: rat
  v_account_total_value :: rat
  v_concentration_pct :: rat
  v_threshold_pct :: rat
  v_excess_pct :: rat

record bank_violation = violation +
  v_custodian_ref :: "string option"

definition check_trade_account :: "string \<Rightarrow> trade_pos list \<Rightarrow> violation list" where
  "check_trade_account account_id positions_list =
     (let total_value = sum_list (map tp_market_value
                          (filter (\<lambda>p. tp_market_value p > 0) positions_list))
      in concat (map (\<lambda>pos.
           if tp_market_value pos \<le> 0 then []
           else (let concentration = (if total_value > 0
                                      then tp_market_value pos / total_value else 0)
                 in if concentration > threshold
                    then [\<lparr>v_account_id = account_id,
                           v_ticker = tp_ticker pos,
                           v_shares = tp_shares pos,
                           v_market_value = tp_market_value pos,
                           v_account_total_value = total_value,
                           v_concentration_pct = concentration * 100,
                           v_threshold_pct = 20,
                           v_excess_pct = (concentration - threshold) * 100\<rparr>]
                    else []))
           (sort_key tp_ticker positions_list)))"

text \<open>
  \<open>sorted(account_positions.items())\<close> compares \<open>(account_id, list)\<close> pairs; the keys of a
  dict differ, so the order is the order of the account ids.
\<close>

definition violations_from_trades :: "store \<Rightarrow> date \<Rightarrow> violation list" where
  "violations_from_trades session query_date =
     (let trades = filter (\<lambda>t. t_trade_date t \<le> query_date) (trades session)
      in if trades = [] then []
         else (let positions_map = value_positions_map trades [];
                   account_positions = group_account_positions positions_map []
               in concat (map (\<lambda>(account_id, positions_list).
                                 check_trade_account account_id positions_list)
                            (sort_key fst account_positions))))"

fun group_bank_positions ::
  "position list \<Rightarrow> (string \<times> position list) list \<Rightarrow> (string \<times> position list) list" where
  "group_bank_positions [] account_positions_bank = account_positions_bank"
| "group_bank_positions (pos # rest) account_positions_bank =
     (let positions_list = (case map_of account_positions_bank (p_account_id pos) of
                              None \<Rightarrow> [] | Some l \<Rightarrow> l)
      in group_bank_positions rest
           (AList.update (p_account_id pos) (positions_list @ [pos]) account_positions_bank))"

definition check_bank_account :: "string \<Rightarrow> position list \<Rightarrow> bank_violation list" where
  "check_bank_account account_id positions_list =
     (let total_value = sum_list (map p_market_value
                          (filter (\<lambda>p. p_market_value p > 0) positions_list))
      in concat (map (\<lambda>pos.
           if p_market_value pos \<le> 0 then []
           else (let concentration = (if total_value > 0
                                      then p_market_value pos / total_value else 0)
                 in if concentration > threshold
                    then [\<lparr>v_account_id = account_id,
                           v_ticker = p_ticker pos,
                           v_shares = p_shares pos,
                           v_market_value = p_market_value pos,
                           v_account_total_value = total_value,
                           v_concentration_pct = concentration * 100,
                           v_threshold_pct = 20,
                           v_excess_pct = (concentration - threshold) * 100,
                           v_custodian_ref = p_custodian_ref pos\<rparr>]
                    else []))
           (sort_key p_ticker positions_list)))"

definition violations_from_bank :: "store \<Rightarrow> date \<Rightarrow> bank_violation list" where
  "violations_from_bank session query_date =
     (let bank_positions = filter (\<lambda>p. p_report_date p = query_date) (positions session)
      in if bank_positions = [] then []
         else (let account_positions_bank = group_bank_positions bank_positions []
               in concat (map (\<lambda>(account_id, positions_list).
                                 check_bank_account account_id positions_list)
                            (sort_key fst account_positions_bank))))"

definition compliance_concentration :: "store \<Rightarrow> date \<Rightarrow> violation list \<times> bank_violation list" where
  "compliance_concentration session query_date =
     (violations_from_trades session query_date, violations_from_bank session query_date)"

subsection \<open>Reconciliation: \<open>reconciliation\<close>\<close>

fun expected_positions_map ::
  "trade list \<Rightarrow> ((string \<times> string) \<times> int) list \<Rightarrow> ((string \<times> string) \<times> int) list" where
  "expected_positions_map [] expected_positions = expected_positions"
| "expected_positions_map (trade # rest) expected_positions =
     (let key = (t_account_id trade, t_ticker trade);
          cur = (case map_of expected_positions key of None \<Rightarrow> 0 | Some q \<Rightarrow> q)
      in expected_positions_map rest (AList.update key (cur + t_quantity trade) expected_positions))"

fun bank_positions_map ::
  "position list \<Rightarrow> ((string \<times> string) \<times> int) list \<Rightarrow> ((string \<times> string) \<times> int) list" where
  "bank_positions_map [] m = m"
| "bank_positions_map (pos # rest) m =
     bank_positions_map rest (AList.update (p_account_id pos, p_ticker pos) (p_shares pos) m)"

record discrepancy =
  d_account_id :: string
  d_ticker :: string
  d_expected_shares :: int
  d_actual_shares :: int
  d_difference :: int
  d_status :: string

definition reconciliation :: "store \<Rightarrow> date \<Rightarrow> discrepancy list" where
  "reconciliation session query_date =
     (let bank_positions = filter (\<lambda>p. p_report_date p = query_date) (positions session);
          trades = filter (\<lambda>t. t_trade_date t \<le> query_date) (trades session);
          expected_positions = expected_positions_map trades [];
          bank_map = bank_positions_map bank_positions [];
          all_keys = remdups (map fst expected_positions @ map fst bank_map)
      in concat (map (\<lambda>key.
           (let expected = (case map_of expected_positions key of None \<Rightarrow> 0 | Some q \<Rightarrow> q);
                actual = (case map_of bank_map key of None \<Rightarrow> 0 | Some q \<Rightarrow> q)
            in if expected \<noteq> actual
               then [\<lparr>d_account_id = fst key,
                      d_ticker = snd key,
                      d_expected_shares = expected,
                      d_actual_shares = actual,
                      d_difference = actual - expected,
                      d_status = (if actual = 0 then ''missing_in_bank''
                                  else if expected = 0 then ''missing_in_trades''
                                  else ''quantity_mismatch'')\<rparr>]
               else []))
           (sort all_keys)))"

section \<open>Notions used in the statements\<close>

text \<open>Every processed record was counted as valid or as failed, and only once.\<close>

definition counted :: "DataQualityReport \<Rightarrow> bool" where
  "counted r = (records_processed r = records_valid r + records_failed r)"

text \<open>A valid Format A row for the account \<open>ACC001\<close>, which no store below holds yet.\<close>

definition buy_row :: raw_format1 where
  "buy_row = \<lparr>r1_TradeDate = Some 20100, r1_AccountID = Some ''ACC001'',
     r1_Ticker = Some ''AAPL'', r1_Quantity = Some 100, r1_Price = Some 185,
     r1_TradeType = Some ''BUY'', r1_SettlementDate = Some 20102,
     r1_extra_cells = False, r1_error = []\<rparr>"

text \<open>
  A valid SELL row, a row whose quantity is not positive (it carries the first line of the
  validator's message), and a file of ten rows.
\<close>

definition sell_row :: raw_format1 where
  "sell_row = \<lparr>r1_TradeDate = Some 20101, r1_AccountID = Some ''ACC001'',
     r1_Ticker = Some ''AAPL'', r1_Quantity = Some 150, r1_Price = Some (371 / 2),
     r1_TradeType = Some ''SELL'', r1_SettlementDate = Some 20103,
     r1_extra_cells = False, r1_error = []\<rparr>"

definition bad_row :: raw_format1 where
  "bad_row = \<lparr>r1_TradeDate = Some 20101, r1_AccountID = Some ''ACC002'',
     r1_Ticker = Some ''MSFT'', r1_Quantity = Some (- 5), r1_Price = Some 410,
     r1_TradeType = Some ''BUY'', r1_SettlementDate = Some 20103,
     r1_extra_cells = False, r1_error = ''1 validation error for TradeFormat1''\<rparr>"

definition ten_rows :: "raw_format1 list" where
  "ten_rows = [buy_row, sell_row, buy_row, buy_row, bad_row,
               sell_row, buy_row, buy_row, sell_row, buy_row]"

text \<open>
  A document of two positions; the second has an empty ticker. The document carries the
  first line of the validator's message.
\<close>

definition good_position :: raw_position where
  "good_position = \<lparr>rp_account_id = Some ''ACC001'', rp_ticker = Some ''AAPL'',
     rp_shares = Some 100, rp_market_value = Some 18500, rp_custodian_ref = Some ''CUST_A_12345''\<rparr>"

definition bad_position :: raw_position where
  "bad_position = \<lparr>rp_account_id = Some ''ACC002'', rp_ticker = Some [],
     rp_shares = Some 50, rp_market_value = Some 20500, rp_custodian_ref = Some ''CUST_B_22345''\<rparr>"

definition two_position_document :: yaml_file where
  "two_position_document =
     Document \<lparr>doc_report_date = Some 20100, doc_positions = [good_position, bad_position],
               doc_error = ''1 validation error for BankPositionFile''\<rparr>"

text \<open>
  No account holds the empty string as custodian name; and every account of one store
  whose custodian name is set is the same row in another store.
\<close>

definition custodians_nonempty :: "store \<Rightarrow> bool" where
  "custodians_nonempty s = (\<forall>a \<in> set (accounts s). a_custodian_name a \<noteq> Some [])"

definition keeps_custodians :: "store \<Rightarrow> store \<Rightarrow> bool" where
  "keeps_custodians s s' =
     (\<forall>aid a. query_account s aid = Some a \<and> a_custodian_name a \<noteq> None
        \<longrightarrow> query_account s' aid = Some a)"

text \<open>
  A Format B row of \<open>ACC001\<close> from \<open>CUSTODIAN_A\<close>, the file of that one row,
  and a position file with one position of \<open>ACC001\<close> whose reference names
  custodian B.
\<close>

definition pipe_row :: raw_format2 where
  "pipe_row = \<lparr>r2_REPORT_DATE = Some 20100, r2_ACCOUNT_ID = Some ''ACC001'',
     r2_SECURITY_TICKER = Some ''AAPL'', r2_SHARES = Some 100,
     r2_MARKET_VALUE = Some 18500, r2_SOURCE_SYSTEM = Some ''CUSTODIAN_A'',
     r2_extra_cells = False, r2_error = []\<rparr>"

definition pipe_upload :: upload where
  "pipe_upload =
     \<lparr>f_name = ''trades_format2.txt'',
      as_csv = [],
      as_pipe = [Row pipe_row],
      as_yaml = LoadError []\<rparr>"

definition bank_upload :: upload where
  "bank_upload =
     \<lparr>f_name = ''bank.yaml'',
      as_csv = [],
      as_pipe = [],
      as_yaml = Document \<lparr>doc_report_date = Some 20100,
                  doc_positions = [\<lparr>rp_account_id = Some ''ACC001'', rp_ticker = Some ''AAPL'',
                     rp_shares = Some 100, rp_market_value = Some 18500,
                     rp_custodian_ref = Some ''CUST_B_22345''\<rparr>],
                  doc_error = []\<rparr>\<rparr>"

text \<open>
  A store with trades and one snapshot: \<open>ACC001\<close> bought and sold 50 AAPL, holds 100
  NVDA, is short 100 TSLA, and buys more NVDA after the snapshot of day 20100.
\<close>

definition mk_trade :: "date \<Rightarrow> string \<Rightarrow> string \<Rightarrow> int \<Rightarrow> rat \<Rightarrow> trade" where
  "mk_trade dt acct tk qty pr =
     \<lparr>t_trade_date = dt, t_account_id = acct, t_ticker = tk, t_quantity = qty,
      t_price = Some pr, t_trade_type = Some (if qty < 0 then ''SELL'' else ''BUY''),
      t_settlement_date = Some (dt + 2), t_market_value = Some (pr * of_int \<bar>qty\<bar>),
      t_source_system = None, t_file_format = ''CSV_FORMAT1'', t_source_file = ''trades.csv''\<rparr>"

definition mk_position :: "date \<Rightarrow> string \<Rightarrow> string \<Rightarrow> int \<Rightarrow> rat \<Rightarrow> position" where
  "mk_position dt acct tk sh mv =
     \<lparr>p_report_date = dt, p_account_id = acct, p_ticker = tk, p_shares = sh,
      p_market_value = mv, p_custodian_ref = Some ''CUST_A_12345'', p_source_file = ''bank.yaml''\<rparr>"

definition demo_store :: store where
  "demo_store =
     \<lparr>accounts = [\<lparr>a_account_id = ''ACC001'', a_custodian_name = Some ''CUSTODIAN_A''\<rparr>],
      trades = [mk_trade 20097 ''ACC001'' ''AAPL'' 50 12,
                mk_trade 20098 ''ACC001'' ''NVDA'' 100 (10106 / 25),
                mk_trade 20099 ''ACC001'' ''TSLA'' (- 100) (10106 / 25),
                mk_trade 20099 ''ACC001'' ''AAPL'' (- 50) 10,
                mk_trade 20101 ''ACC001'' ''NVDA'' 5 400],
      positions = [mk_position 20100 ''ACC001'' ''NVDA'' 75 30318,
                   mk_position 20100 ''ACC001'' ''MSFT'' 10 4100,
                   mk_position 20099 ''ACC001'' ''TSLA'' (- 100) (- 40424)]\<rparr>"

text \<open>
  The net signed share count of an account in a ticker: the sum of the quantities of its
  trades in that ticker dated on or before the query date.
\<close>

definition net_shares :: "store \<Rightarrow> string \<Rightarrow> string \<Rightarrow> date \<Rightarrow> int" where
  "net_shares s account_id ticker query_date =
     sum_list (map t_quantity
       (filter (\<lambda>t. t_trade_date t \<le> query_date \<and> t_account_id t = account_id \<and>
                     t_ticker t = ticker) (trades s)))"

text \<open>
  The shares the snapshot of a date states for an account and a ticker: those of the row
  for that key and date (of the last one stored, should there be several), 0 without a row.
\<close>

definition snapshot_shares :: "store \<Rightarrow> string \<Rightarrow> string \<Rightarrow> date \<Rightarrow> int" where
  "snapshot_shares s account_id ticker query_date =
     (case filter (\<lambda>p. p_report_date p = query_date \<and> p_account_id p = account_id \<and>
                         p_ticker p = ticker) (positions s) of
        [] \<Rightarrow> 0
      | p # ps \<Rightarrow> p_shares (last (p # ps)))"

text \<open>The (account, ticker) keys of the trades up to a date, and of the snapshot of a date.\<close>

definition trade_keys :: "store \<Rightarrow> date \<Rightarrow> (string \<times> string) set" where
  "trade_keys s query_date =
     (\<lambda>t. (t_account_id t, t_ticker t)) ` {t \<in> set (trades s). t_trade_date t \<le> query_date}"

definition snapshot_keys :: "store \<Rightarrow> date \<Rightarrow> (string \<times> string) set" where
  "snapshot_keys s query_date =
     (\<lambda>p. (p_account_id p, p_ticker p)) ` {p \<in> set (positions s). p_report_date p = query_date}"

definition discrepancy_key :: "discrepancy \<Rightarrow> string \<times> string" where
  "discrepancy_key x = (d_account_id x, d_ticker x)"

text \<open>
  What one trade adds to the aggregate value of its (account, ticker): price times signed
  quantity when it has a non-zero price, else its market value when it has one.
\<close>

definition trade_value :: "trade \<Rightarrow> rat" where
  "trade_value t =
     (case t_price t of
        Some pr \<Rightarrow> if pr \<noteq> 0 then pr * of_int (t_quantity t)
                   else (case t_market_value t of Some mv \<Rightarrow> mv | None \<Rightarrow> 0)
      | None \<Rightarrow> (case t_market_value t of Some mv \<Rightarrow> mv | None \<Rightarrow> 0))"

definition aggregate_value :: "store \<Rightarrow> string \<Rightarrow> string \<Rightarrow> date \<Rightarrow> rat" where
  "aggregate_value s account_id ticker query_date =
     sum_list (map trade_value
       (filter (\<lambda>t. t_trade_date t \<le> query_date \<and> t_account_id t = account_id \<and>
                     t_ticker t = ticker) (trades s)))"

text \<open>
  The tickers an account traded up to a date, and the sum of the strictly positive
  aggregate values of those with a net share count other than zero.
\<close>

definition traded_tickers :: "store \<Rightarrow> string \<Rightarrow> date \<Rightarrow> string list" where
  "traded_tickers s account_id query_date =
     remdups (map t_ticker
                (filter (\<lambda>t. t_trade_date t \<le> query_date \<and> t_account_id t = account_id)
                   (trades s)))"

definition open_positive_total :: "store \<Rightarrow> string \<Rightarrow> date \<Rightarrow> rat" where
  "open_positive_total s account_id query_date =
     sum_list (map (\<lambda>ticker. aggregate_value s account_id ticker query_date)
       (filter (\<lambda>ticker. net_shares s account_id ticker query_date \<noteq> 0 \<and>
                          aggregate_value s account_id ticker query_date > 0)
          (traded_tickers s account_id query_date)))"

text \<open>
  The sum of the strictly positive market values of all snapshot rows of an account and
  a date, whatever their share counts.
\<close>

definition snapshot_positive_total :: "store \<Rightarrow> string \<Rightarrow> date \<Rightarrow> rat" where
  "snapshot_positive_total s account_id query_date =
     sum_list (map p_market_value
       (filter (\<lambda>p. p_market_value p > 0)
          (filter (\<lambda>p. p_account_id p = account_id)
             (filter (\<lambda>p. p_report_date p = query_date) (positions s)))))"

text \<open>The entries of an account in the positions map that have shares, as positions.\<close>

definition open_positions_of ::
  "string \<Rightarrow> ((string \<times> string) \<times> value_entry) list \<Rightarrow> trade_pos list" where
  "open_positions_of a pm =
     map (\<lambda>(k, e). \<lparr>tp_ticker = snd k, tp_shares = ve_shares e, tp_market_value = ve_total_value e\<rparr>)
       (filter (\<lambda>(k, e). fst k = a \<and> ve_shares e \<noteq> 0) pm)"

text \<open>A store whose only snapshot row has 0 shares and a positive market value.\<close>

definition demo_trade_violation :: violation where
  "demo_trade_violation =
     \<lparr>v_account_id = ''ACC001'', v_ticker = ''NVDA'', v_shares = 100,
      v_market_value = 40424, v_account_total_value = 40424,
      v_concentration_pct = 100, v_threshold_pct = 20, v_excess_pct = 80\<rparr>"

definition demo_bank_violation :: bank_violation where
  "demo_bank_violation =
     \<lparr>v_account_id = ''ACC001'', v_ticker = ''NVDA'', v_shares = 75,
      v_market_value = 30318, v_account_total_value = 34418,
      v_concentration_pct = 1515900 / 17209, v_threshold_pct = 20,
      v_excess_pct = 1171720 / 17209, v_custodian_ref = Some ''CUST_A_12345''\<rparr>"

definition zero_share_store :: store where
  "zero_share_store =
     \<lparr>accounts = [\<lparr>a_account_id = ''ACC002'', a_custodian_name = Some ''CUSTODIAN_B''\<rparr>],
      trades = [],
      positions = [mk_position 20100 ''ACC002'' ''GOOG'' 0 500]\<rparr>"


text \<open>
  Every row of a file that passes validation has a quantity that SQLite can hold: no
  flush of the call raises.
\<close>

definition format1_storable :: "raw_format1 list \<Rightarrow> bool" where
  "format1_storable rows =
     list_all (\<lambda>row. case TradeFormat1 row of
                        Inl e \<Rightarrow> True
                      | Inr v \<Rightarrow> storable_int (signed_quantity v)) rows"

definition format2_storable :: "raw_format2 list \<Rightarrow> bool" where
  "format2_storable rows =
     list_all (\<lambda>row. case TradeFormat2 row of
                        Inl e \<Rightarrow> True
                      | Inr v \<Rightarrow> storable_int (v2_shares v)) rows"


definition overflow_row :: raw_format1 where
  "overflow_row = \<lparr>r1_TradeDate = Some 20100, r1_AccountID = Some ''ACC001'',
     r1_Ticker = Some ''AAPL'', r1_Quantity = Some (2 ^ 63), r1_Price = Some 185,
     r1_TradeType = Some ''BUY'', r1_SettlementDate = Some 20102,
     r1_extra_cells = False, r1_error = []\<rparr>"

text \<open>
  The accounts of a session, at its start and in its transaction, hold no empty custodian
  name and keep every custodian name that is set in the store \<open>s\<close>.
\<close>

definition session_keeps :: "store \<Rightarrow> session \<Rightarrow> bool" where
  "session_keeps s ss =
     (custodians_nonempty (begun ss) \<and> keeps_custodians s (begun ss) \<and>
      custodians_nonempty (current ss) \<and> keeps_custodians s (current ss))"

text \<open>
  A document of three valid positions, the first with \<open>2 ^ 63\<close> shares.
\<close>

definition overflow_document :: yaml_file where
  "overflow_document =
     Document \<lparr>doc_report_date = Some 20100,
               doc_positions =
                 [\<lparr>rp_account_id = Some ''ACC001'', rp_ticker = Some ''AAPL'',
                   rp_shares = Some (2 ^ 63), rp_market_value = Some 18500,
                   rp_custodian_ref = Some ''CUST_A_12345''\<rparr>,
                  \<lparr>rp_account_id = Some ''ACC001'', rp_ticker = Some ''MSFT'',
                   rp_shares = Some 50, rp_market_value = Some 20500,
                   rp_custodian_ref = Some ''CUST_A_12345''\<rparr>,
                  \<lparr>rp_account_id = Some ''ACC002'', rp_ticker = Some ''NVDA'',
                   rp_shares = Some 10, rp_market_value = Some 4042,
                   rp_custodian_ref = Some ''CUST_B_22345''\<rparr>],
               doc_error = []\<rparr>"

section \<open>Custodian derivation\<close>

lemma split_not_Nil: "split c xs \<noteq> []"
  by (induction xs) (auto split: list.splits)

lemma split_no_sep: "c \<notin> set xs \<Longrightarrow> split c xs = [xs]"
  by (induction xs) auto

lemma split_at_first_sep:
  "c \<notin> set a \<Longrightarrow> split c (a @ c # rest) = a # split c rest"
  by (induction a) auto

lemma hd_split: "hd (split c xs) = takeWhile (\<lambda>x. x \<noteq> c) xs"
  by (induction xs) (auto split: list.splits simp: split_not_Nil)

text \<open>
  C8. An absent or empty reference, and a reference with fewer than two segments between
  underscores (one without any underscore), give no custodian name. A reference
  \<open>a_rest\<close> whose first segment \<open>a\<close> has no underscore gives \<open>CUSTODIAN_\<close> followed by the
  segment right after the first underscore, which is \<open>rest\<close> up to its first underscore.
  The function is total: no reference makes it raise.
\<close>

theorem extract_custodian_name_spec:
  "extract_custodian_name None = None \<and>
   extract_custodian_name (Some []) = None \<and>
   (length (split CHR ''_'' r) < 2 \<longrightarrow> extract_custodian_name (Some r) = None) \<and>
   (CHR ''_'' \<notin> set r \<longrightarrow> extract_custodian_name (Some r) = None) \<and>
   (CHR ''_'' \<notin> set a \<longrightarrow>
      extract_custodian_name (Some (a @ CHR ''_'' # rest)) =
        Some (''CUSTODIAN_'' @ takeWhile (\<lambda>x. x \<noteq> CHR ''_'') rest))"
proof -
  have seg: "split CHR ''_'' rest ! 0 = takeWhile (\<lambda>x. x \<noteq> CHR ''_'') rest"
    using hd_split [of "CHR ''_''" rest] split_not_Nil [of "CHR ''_''" rest]
    by (simp add: hd_conv_nth)
  have two: "2 \<le> length (a # split CHR ''_'' rest)"
    using split_not_Nil [of "CHR ''_''" rest] by (cases "split CHR ''_'' rest") auto
  show ?thesis
    using seg two
    by (auto simp: extract_custodian_name_def Let_def split_no_sep split_at_first_sep)
qed

theorem extract_custodian_name_spec_witness:
  "extract_custodian_name (Some ''CUST_A_12345'') = Some ''CUSTODIAN_A'' \<and>
   extract_custodian_name (Some ''CUSTA'') = None"
  using extract_custodian_name_spec [of "''CUSTA''" "''CUST''" "''A_12345''"]
  by simp


section \<open>The session\<close>

lemma find_set_custodian_same:
  "find (\<lambda>a. a_account_id a = aid) (set_custodian aid c as) =
   map_option (\<lambda>a. a\<lparr>a_custodian_name := c\<rparr>) (find (\<lambda>a. a_account_id a = aid) as)"
  by (induction as) auto

lemma find_set_custodian_other:
  "aid' \<noteq> aid \<Longrightarrow>
   find (\<lambda>a. a_account_id a = aid') (set_custodian aid c as) =
   find (\<lambda>a. a_account_id a = aid') as"
  by (induction as) auto

lemma find_append:
  "find P (xs @ ys) = (case find P xs of None \<Rightarrow> find P ys | Some x \<Rightarrow> Some x)"
  by (induction xs) auto

lemma query_after_ensure: "query_account (ensure_account_exists s aid c) aid \<noteq> None"
  by (auto simp: ensure_account_exists_def query_account_def find_append
      find_set_custodian_same split: option.splits)

lemma ensure_trades [simp]: "trades (ensure_account_exists s aid c) = trades s"
  by (simp add: ensure_account_exists_def split: option.splits)

lemma ensure_positions [simp]: "positions (ensure_account_exists s aid c) = positions s"
  by (simp add: ensure_account_exists_def split: option.splits)

lemma query_account_trades [simp]: "query_account (s\<lparr>trades := ts\<rparr>) aid = query_account s aid"
  by (simp add: query_account_def)

lemma query_account_positions [simp]: "query_account (s\<lparr>positions := ps\<rparr>) aid = query_account s aid"
  by (simp add: query_account_def)

lemma flushed_accounts [simp]: "accounts (flushed lib ss) = accounts (current ss)"
  by (simp add: flushed_def)

lemma flushed_trades:
  "trades (flushed lib ss) = trades (current ss) @ map (stored_trade lib) (pending_trades ss)"
  by (simp add: flushed_def)

lemma flushed_positions:
  "positions (flushed lib ss) =
   positions (current ss) @ map (stored_position lib) (pending_positions ss)"
  by (simp add: flushed_def)

lemma query_account_flushed [simp]:
  "query_account (flushed lib ss) aid = query_account (current ss) aid"
  by (simp add: flushed_def)

text \<open>
  The account step of a loop body, by the state of the session: on a session that a
  failed flush left inactive it raises; with pending rows that can all be written it
  writes them, resolves the account and leaves the report as it is, since the query that
  follows \<open>ensure_account_exists\<close> finds the account; otherwise the flush raises and
  the transaction is rolled back.
\<close>

lemma account_step_eq:
  "account_step lib ss r aid c =
     (if inactive ss then (ss, Inl (pending_rollback_text lib))
      else if storable_pending ss
      then (ss\<lparr>current := ensure_account_exists (flushed lib ss) aid c,
               pending_trades := [], pending_positions := []\<rparr>, Inr r)
      else (ss\<lparr>current := begun ss, pending_trades := [], pending_positions := [],
               inactive := True\<rparr>, Inl (overflow_text lib)))"
  by (simp add: account_step_def session_ensure_account_exists_def session_query_account_def
      flush_def storable_pending_def flushed_def query_after_ensure)

lemma commit_eq:
  "commit lib ss =
     (if inactive ss then Inl (pending_rollback_text lib)
      else if storable_pending ss then Inr (flushed lib ss)
      else Inl (overflow_text lib))"
  by (simp add: commit_def flush_def)

section \<open>Counters of the report\<close>

lemma counted_new_report: "counted (new_report f fmt)"
  by (simp add: counted_def new_report_def)

lemma counted_errors: "counted (r\<lparr>errors := es\<rparr>) = counted r"
  by (simp add: counted_def)

lemma counted_custodians: "counted (r\<lparr>custodians_detected := es\<rparr>) = counted r"
  by (simp add: counted_def)

lemma counted_file_failed: "counted (file_failed r e) = counted r"
  by (simp add: counted_def file_failed_def)

lemma format1_rows_counted:
  "counted r \<Longrightarrow> counted (snd (snd (format1_rows lib ss r n evs)))"
proof (induction evs arbitrary: ss r n)
  case Nil
  then show ?case by simp
next
  case (Cons ev evs)
  show ?case
  proof (cases ev)
    case (ReadError e)
    with Cons.prems show ?thesis by simp
  next
    case (Row row)
    with Cons.prems show ?thesis
      by (cases "TradeFormat1 row")
        (auto simp: Let_def account_step_eq intro!: Cons.IH, auto simp: counted_def row_failed_def)
  qed
qed

lemma format2_rows_counted:
  "counted r \<Longrightarrow> counted (fst (snd (snd (format2_rows lib ss r cs n evs))))"
proof (induction evs arbitrary: ss r cs n)
  case Nil
  then show ?case by simp
next
  case (Cons ev evs)
  show ?case
  proof (cases ev)
    case (ReadError e)
    with Cons.prems show ?thesis by simp
  next
    case (Row row)
    with Cons.prems show ?thesis
      by (cases "TradeFormat2 row")
        (auto simp: Let_def account_step_eq intro!: Cons.IH, auto simp: counted_def row_failed_def)
  qed
qed

lemma bank_rows_counted:
  "counted r \<Longrightarrow> counted (fst (snd (bank_rows lib ss r cs d ps)))"
proof (induction ps arbitrary: ss r cs)
  case Nil
  then show ?case by simp
next
  case (Cons p ps)
  then show ?case
    by (auto simp: Let_def account_step_eq intro!: Cons.IH,
        auto simp: counted_def position_failed_def)
qed

lemma ingest_trade_format1_counted: "counted (snd (ingest_trade_format1 lib s f evs))"
  using format1_rows_counted [where r = "new_report f ''CSV_FORMAT1''" and ss = "begin_session s"
      and n = 2 and evs = evs and lib = lib]
  by (auto simp: ingest_trade_format1_def counted_file_failed counted_new_report
      split: prod.splits option.splits sum.splits)

lemma ingest_trade_format2_counted: "counted (snd (ingest_trade_format2 lib s f evs))"
  using format2_rows_counted [where r = "new_report f ''PIPE_FORMAT2''" and ss = "begin_session s"
      and n = 2 and evs = evs and cs = "[]" and lib = lib]
  by (auto simp: ingest_trade_format2_def counted_file_failed counted_custodians counted_new_report
      split: prod.splits option.splits sum.splits)

lemma ingest_bank_positions_counted: "counted (snd (ingest_bank_positions lib s f y))"
proof (cases y)
  case (LoadError e)
  then show ?thesis
    by (simp add: ingest_bank_positions_def Let_def counted_file_failed counted_new_report)
next
  case (Document data)
  show ?thesis
  proof (cases "BankPositionFile data")
    case (Inl e)
    with Document show ?thesis
      by (simp add: ingest_bank_positions_def Let_def counted_file_failed counted_new_report)
  next
    case (Inr vf)
    with Document show ?thesis
      using bank_rows_counted [where r = "new_report f ''YAML_POSITIONS''"
          and ss = "begin_session s" and cs = "[]" and d = "bf_report_date vf"
          and ps = "bf_positions vf" and lib = lib]
      by (auto simp: ingest_bank_positions_def Let_def counted_custodians counted_file_failed
          counted_new_report split: prod.splits sum.splits)
  qed
qed

lemma ingest_file_counted: "counted (snd (ingest_file lib s file fmt))"
  using ingest_trade_format1_counted ingest_trade_format2_counted ingest_bank_positions_counted
  by (simp add: ingest_file_def counted_errors counted_new_report)

section \<open>The counter of new accounts\<close>

lemma new_accounts_row_failed [simp]:
  "new_accounts_created (row_failed r n e) = new_accounts_created r"
  by (simp add: row_failed_def)

lemma new_accounts_position_failed [simp]:
  "new_accounts_created (position_failed r e) = new_accounts_created r"
  by (simp add: position_failed_def)

lemma new_accounts_file_failed [simp]:
  "new_accounts_created (file_failed r e) = new_accounts_created r"
  by (simp add: file_failed_def)

lemma format1_rows_new_accounts:
  "new_accounts_created (snd (snd (format1_rows lib ss r n evs))) = new_accounts_created r"
proof (induction evs arbitrary: ss r n)
  case Nil
  show ?case by simp
next
  case (Cons ev evs)
  show ?case
  proof (cases ev)
    case (ReadError e)
    then show ?thesis by simp
  next
    case (Row row)
    then show ?thesis
      by (cases "TradeFormat1 row") (simp_all add: Let_def account_step_eq Cons.IH)
  qed
qed

lemma format2_rows_new_accounts:
  "new_accounts_created (fst (snd (snd (format2_rows lib ss r cs n evs)))) =
   new_accounts_created r"
proof (induction evs arbitrary: ss r cs n)
  case Nil
  show ?case by simp
next
  case (Cons ev evs)
  show ?case
  proof (cases ev)
    case (ReadError e)
    then show ?thesis by simp
  next
    case (Row row)
    then show ?thesis
      by (cases "TradeFormat2 row") (simp_all add: Let_def account_step_eq Cons.IH)
  qed
qed

lemma bank_rows_new_accounts:
  "new_accounts_created (fst (snd (bank_rows lib ss r cs d ps))) = new_accounts_created r"
  by (induction ps arbitrary: ss r cs) (simp_all add: Let_def account_step_eq)

lemma new_accounts_created_stays_zero:
  "new_accounts_created (snd (ingest_file lib s file fmt)) = 0"
proof -
  have 1: "new_accounts_created (snd (ingest_trade_format1 lib s f evs)) = 0" for f evs
    using format1_rows_new_accounts [where r = "new_report f ''CSV_FORMAT1''"
        and ss = "begin_session s" and n = 2 and evs = evs and lib = lib]
    by (auto simp: ingest_trade_format1_def new_report_def
        split: prod.splits option.splits sum.splits)
  have 2: "new_accounts_created (snd (ingest_trade_format2 lib s f evs)) = 0" for f evs
    using format2_rows_new_accounts [where r = "new_report f ''PIPE_FORMAT2''"
        and ss = "begin_session s" and n = 2 and evs = evs and cs = "[]" and lib = lib]
    by (auto simp: ingest_trade_format2_def new_report_def
        split: prod.splits option.splits sum.splits)
  have 3: "new_accounts_created (snd (ingest_bank_positions lib s f y)) = 0" for f y
  proof (cases y)
    case (LoadError e)
    then show ?thesis by (simp add: ingest_bank_positions_def Let_def new_report_def)
  next
    case (Document data)
    show ?thesis
    proof (cases "BankPositionFile data")
      case (Inl e)
      with Document show ?thesis by (simp add: ingest_bank_positions_def Let_def new_report_def)
    next
      case (Inr vf)
      with Document show ?thesis
        using bank_rows_new_accounts [where r = "new_report f ''YAML_POSITIONS''"
            and ss = "begin_session s" and cs = "[]" and d = "bf_report_date vf"
            and ps = "bf_positions vf" and lib = lib]
        by (auto simp: ingest_bank_positions_def Let_def new_report_def
            split: prod.splits sum.splits)
    qed
  qed
  show ?thesis
    using 1 2 3 by (simp add: ingest_file_def new_report_def)
qed

text \<open>
  C3 (defect in the code). The claim asks for \<open>new_accounts_created\<close> to go up by one
  for each account an ingestion call creates. Each loop asks the session for the account
  only after \<open>ensure_account_exists\<close> has added it, so the test \<open>not ...first()\<close> is
  never true and the counter stays at 0 (\<open>new_accounts_created_stays_zero\<close>). Here one
  valid row for the unseen account \<open>ACC001\<close> is ingested into the empty store: the
  account is created, the row is counted as valid, and the report says 0 new accounts.
\<close>

theorem new_account_not_counted:
  "query_account empty_store ''ACC001'' = None \<and>
   query_account (fst (ingest_trade_format1 sqlite_library empty_store ''trades.csv''
                         [Row buy_row])) ''ACC001''
     = Some \<lparr>a_account_id = ''ACC001'', a_custodian_name = None\<rparr> \<and>
   records_valid (snd (ingest_trade_format1 sqlite_library empty_store ''trades.csv''
                         [Row buy_row])) = 1 \<and>
   new_accounts_created (snd (ingest_trade_format1 sqlite_library empty_store ''trades.csv''
                                [Row buy_row])) = 0"
  by (simp add: ingest_trade_format1_def buy_row_def TradeFormat1_def parse_TradeType_def
      account_step_eq commit_eq begin_session_def storable_pending_def storable_int_def
      format1_trade_def signed_quantity_def TradeType_value_def
      ensure_account_exists_def query_account_def empty_store_def new_report_def Let_def)

section \<open>Row files read without a failure of the reader or of the session\<close>

lemma isl_Inl_case: "isl x = (case x of Inl e \<Rightarrow> True | Inr v \<Rightarrow> False)"
  by (cases x) simp_all

lemma format1_trade_quantity [simp]:
  "t_quantity (format1_trade lib fmt fname v) = signed_quantity v"
  by (simp add: format1_trade_def Let_def)

lemma format2_trade_quantity [simp]:
  "t_quantity (format2_trade lib fmt fname v) = v2_shares v"
  by (simp add: format2_trade_def)

lemma format1_rows_Rows:
  "\<not> inactive ss \<Longrightarrow> storable_pending ss \<Longrightarrow> format1_storable rows \<Longrightarrow>
   fst (format1_rows lib ss r n (map Row rows)) = None \<and>
   \<not> inactive (fst (snd (format1_rows lib ss r n (map Row rows)))) \<and>
   storable_pending (fst (snd (format1_rows lib ss r n (map Row rows)))) \<and>
   trades (flushed lib (fst (snd (format1_rows lib ss r n (map Row rows))))) =
     trades (flushed lib ss) @
     concat (map (\<lambda>row. case TradeFormat1 row of
                    Inl e \<Rightarrow> []
                  | Inr v \<Rightarrow> [stored_trade lib
                               (format1_trade lib (file_format r) (file_name r) v)]) rows) \<and>
   positions (flushed lib (fst (snd (format1_rows lib ss r n (map Row rows))))) =
     positions (flushed lib ss) \<and>
   records_failed (snd (snd (format1_rows lib ss r n (map Row rows)))) =
     records_failed r + length (filter (\<lambda>row. isl (TradeFormat1 row)) rows) \<and>
   records_valid (snd (snd (format1_rows lib ss r n (map Row rows)))) =
     records_valid r + length (filter (\<lambda>row. \<not> isl (TradeFormat1 row)) rows) \<and>
   errors (snd (snd (format1_rows lib ss r n (map Row rows)))) =
     errors r @ concat (map (\<lambda>(row_num, row). case TradeFormat1 row of
                                      Inl e \<Rightarrow> [''Row '' @ str_nat row_num @ '': '' @ e]
                                    | Inr v \<Rightarrow> []) (enumerate n rows))"
proof (induction rows arbitrary: ss r n)
  case Nil
  then show ?case by simp
next
  case (Cons row rows)
  from Cons.prems(3) have rest: "format1_storable rows"
    by (simp add: format1_storable_def)
  show ?case
  proof (cases "TradeFormat1 row")
    case (Inl e)
    note ih = Cons.IH [OF Cons.prems(1) Cons.prems(2) rest]
    from Inl show ?thesis
      by (simp add: Let_def ih row_failed_def cong: sum.case_cong)
  next
    case (Inr v)
    let ?ss = "ss\<lparr>current := ensure_account_exists (flushed lib ss) (v1_account_id v) None,
                   pending_positions := [],
                   pending_trades := [format1_trade lib (file_format r) (file_name r) v]\<rparr>"
    let ?r = "r\<lparr>records_processed := records_processed r + 1,
                 records_valid := records_valid r + 1\<rparr>"
    from Cons.prems(3) Inr have q: "storable_int (signed_quantity v)"
      by (simp add: format1_storable_def)
    have 1: "\<not> inactive ?ss" using Cons.prems(1) by simp
    have 2: "storable_pending ?ss" using q by (simp add: storable_pending_def)
    have step: "format1_rows lib ss r n (map Row (row # rows)) =
                format1_rows lib ?ss ?r (Suc n) (map Row rows)"
      using Inr Cons.prems(1) Cons.prems(2) by (simp add: Let_def account_step_eq)
    from Cons.IH [OF 1 2 rest, where r = ?r and n = "Suc n"] Inr
    show ?thesis
      unfolding step
      by (simp add: flushed_def cong: sum.case_cong)
  qed
qed

lemma format2_rows_Rows:
  "\<not> inactive ss \<Longrightarrow> storable_pending ss \<Longrightarrow> format2_storable rows \<Longrightarrow>
   fst (format2_rows lib ss r cs n (map Row rows)) = None \<and>
   \<not> inactive (fst (snd (format2_rows lib ss r cs n (map Row rows)))) \<and>
   storable_pending (fst (snd (format2_rows lib ss r cs n (map Row rows)))) \<and>
   trades (flushed lib (fst (snd (format2_rows lib ss r cs n (map Row rows))))) =
     trades (flushed lib ss) @
     concat (map (\<lambda>row. case TradeFormat2 row of
                    Inl e \<Rightarrow> []
                  | Inr v \<Rightarrow> [stored_trade lib
                               (format2_trade lib (file_format r) (file_name r) v)]) rows) \<and>
   positions (flushed lib (fst (snd (format2_rows lib ss r cs n (map Row rows))))) =
     positions (flushed lib ss) \<and>
   records_failed (fst (snd (snd (format2_rows lib ss r cs n (map Row rows))))) =
     records_failed r + length (filter (\<lambda>row. isl (TradeFormat2 row)) rows) \<and>
   records_valid (fst (snd (snd (format2_rows lib ss r cs n (map Row rows))))) =
     records_valid r + length (filter (\<lambda>row. \<not> isl (TradeFormat2 row)) rows) \<and>
   errors (fst (snd (snd (format2_rows lib ss r cs n (map Row rows))))) =
     errors r @ concat (map (\<lambda>(row_num, row). case TradeFormat2 row of
                                      Inl e \<Rightarrow> [''Row '' @ str_nat row_num @ '': '' @ e]
                                    | Inr v \<Rightarrow> []) (enumerate n rows))"
proof (induction rows arbitrary: ss r cs n)
  case Nil
  then show ?case by simp
next
  case (Cons row rows)
  from Cons.prems(3) have rest: "format2_storable rows"
    by (simp add: format2_storable_def)
  show ?case
  proof (cases "TradeFormat2 row")
    case (Inl e)
    note ih = Cons.IH [OF Cons.prems(1) Cons.prems(2) rest]
    from Inl show ?thesis
      by (simp add: Let_def ih row_failed_def cong: sum.case_cong)
  next
    case (Inr v)
    let ?ss = "ss\<lparr>current := ensure_account_exists (flushed lib ss) (v2_account_id v)
                                (Some (v2_source_system v)),
                   pending_positions := [],
                   pending_trades := [format2_trade lib (file_format r) (file_name r) v]\<rparr>"
    let ?r = "r\<lparr>records_processed := records_processed r + 1,
                 records_valid := records_valid r + 1\<rparr>"
    from Cons.prems(3) Inr have q: "storable_int (v2_shares v)"
      by (simp add: format2_storable_def)
    have 1: "\<not> inactive ?ss" using Cons.prems(1) by simp
    have 2: "storable_pending ?ss" using q by (simp add: storable_pending_def)
    have step: "format2_rows lib ss r cs n (map Row (row # rows)) =
                format2_rows lib ?ss ?r (List.insert (v2_source_system v) cs) (Suc n) (map Row rows)"
      using Inr Cons.prems(1) Cons.prems(2) by (simp add: Let_def account_step_eq)
    from Cons.IH [OF 1 2 rest, where r = ?r and n = "Suc n"
        and cs = "List.insert (v2_source_system v) cs"] Inr
    show ?thesis
      unfolding step
      by (simp add: flushed_def cong: sum.case_cong)
  qed
qed

lemma begin_session_facts:
  "\<not> inactive (begin_session s)" "storable_pending (begin_session s)"
  "flushed lib (begin_session s) = s" "begun (begin_session s) = s"
  "current (begin_session s) = s"
  by (simp_all add: begin_session_def storable_pending_def flushed_def)

lemma ingest_trade_format1_Rows:
  assumes "format1_storable rows"
  shows "ingest_trade_format1 lib s fname (map Row rows) =
   (flushed lib (fst (snd (format1_rows lib (begin_session s) (new_report fname ''CSV_FORMAT1'') 2
                             (map Row rows)))),
    snd (snd (format1_rows lib (begin_session s) (new_report fname ''CSV_FORMAT1'') 2
                (map Row rows))))"
proof -
  obtain x a b where eq:
    "format1_rows lib (begin_session s) (new_report fname ''CSV_FORMAT1'') 2 (map Row rows) = (x, a, b)"
    by (cases "format1_rows lib (begin_session s) (new_report fname ''CSV_FORMAT1'') 2 (map Row rows)")
      auto
  from format1_rows_Rows [OF begin_session_facts(1) begin_session_facts(2) assms,
      where r = "new_report fname ''CSV_FORMAT1''" and n = 2 and lib = lib and s1 = s] eq
  have "x = None" "\<not> inactive a" "storable_pending a" by simp_all
  with eq show ?thesis by (simp add: ingest_trade_format1_def commit_eq)
qed

lemma ingest_trade_format2_Rows:
  assumes "format2_storable rows"
  shows "ingest_trade_format2 lib s fname (map Row rows) =
   (flushed lib (fst (snd (format2_rows lib (begin_session s) (new_report fname ''PIPE_FORMAT2'') []
                             2 (map Row rows)))),
    (fst (snd (snd (format2_rows lib (begin_session s) (new_report fname ''PIPE_FORMAT2'') [] 2
                      (map Row rows)))))
      \<lparr>custodians_detected :=
         sort (snd (snd (snd (format2_rows lib (begin_session s)
                                (new_report fname ''PIPE_FORMAT2'') [] 2 (map Row rows)))))\<rparr>)"
proof -
  obtain x a b c where eq:
    "format2_rows lib (begin_session s) (new_report fname ''PIPE_FORMAT2'') [] 2 (map Row rows)
       = (x, a, b, c)"
    by (cases "format2_rows lib (begin_session s) (new_report fname ''PIPE_FORMAT2'') [] 2
                 (map Row rows)") auto
  from format2_rows_Rows [OF begin_session_facts(1) begin_session_facts(2) assms,
      where r = "new_report fname ''PIPE_FORMAT2''" and n = 2 and lib = lib and s1 = s
        and cs = "[]"] eq
  have "x = None" "\<not> inactive a" "storable_pending a" by simp_all
  with eq show ?thesis by (simp add: ingest_trade_format2_def commit_eq)
qed

text \<open>
  What the two row loops do with a row that fails validation, in a file that the reader
  reads to its end and whose validated quantities SQLite can hold: the row adds one to
  \<open>records_failed\<close> and one entry \<open>Row n: message\<close> to \<open>errors\<close>, where \<open>n\<close>
  is the index of the record among those the reader yields, counted from 2; every other
  row adds one to \<open>records_valid\<close>; and the trades of all valid rows are persisted, as
  the session reads them back, after the trades the store held, in file order.
\<close>

lemma row_failure_isolated:
  assumes "format1_storable rows" and "format2_storable rows2"
  shows
  "records_failed (snd (ingest_trade_format1 lib s fname (map Row rows))) =
     length (filter (\<lambda>row. isl (TradeFormat1 row)) rows) \<and>
   records_valid (snd (ingest_trade_format1 lib s fname (map Row rows))) =
     length (filter (\<lambda>row. \<not> isl (TradeFormat1 row)) rows) \<and>
   errors (snd (ingest_trade_format1 lib s fname (map Row rows))) =
     concat (map (\<lambda>(row_num, row). case TradeFormat1 row of
                    Inl e \<Rightarrow> [''Row '' @ str_nat row_num @ '': '' @ e]
                  | Inr v \<Rightarrow> []) (enumerate 2 rows)) \<and>
   trades (fst (ingest_trade_format1 lib s fname (map Row rows))) =
     trades s @ concat (map (\<lambda>row. case TradeFormat1 row of
                    Inl e \<Rightarrow> []
                  | Inr v \<Rightarrow> [stored_trade lib (format1_trade lib ''CSV_FORMAT1'' fname v)]) rows) \<and>
   records_failed (snd (ingest_trade_format2 lib s fname (map Row rows2))) =
     length (filter (\<lambda>row. isl (TradeFormat2 row)) rows2) \<and>
   records_valid (snd (ingest_trade_format2 lib s fname (map Row rows2))) =
     length (filter (\<lambda>row. \<not> isl (TradeFormat2 row)) rows2) \<and>
   errors (snd (ingest_trade_format2 lib s fname (map Row rows2))) =
     concat (map (\<lambda>(row_num, row). case TradeFormat2 row of
                    Inl e \<Rightarrow> [''Row '' @ str_nat row_num @ '': '' @ e]
                  | Inr v \<Rightarrow> []) (enumerate 2 rows2)) \<and>
   trades (fst (ingest_trade_format2 lib s fname (map Row rows2))) =
     trades s @ concat (map (\<lambda>row. case TradeFormat2 row of
                    Inl e \<Rightarrow> []
                  | Inr v \<Rightarrow> [stored_trade lib (format2_trade lib ''PIPE_FORMAT2'' fname v)]) rows2)"
proof -
  note a = format1_rows_Rows [OF begin_session_facts(1) begin_session_facts(2) assms(1),
      where r = "new_report fname ''CSV_FORMAT1''" and n = 2 and lib = lib and s1 = s]
  note b = format2_rows_Rows [OF begin_session_facts(1) begin_session_facts(2) assms(2),
      where r = "new_report fname ''PIPE_FORMAT2''" and n = 2 and lib = lib and s1 = s
        and cs = "[]"]
  note 1 = ingest_trade_format1_Rows [OF assms(1), of lib s fname]
  note 2 = ingest_trade_format2_Rows [OF assms(2), of lib s fname]
  show ?thesis
    unfolding 1 2 using a b
    by (simp add: new_report_def begin_session_facts cong: sum.case_cong)
qed

section \<open>Amounts as SQLite gives them back\<close>















section \<open>The trade stored for a Format A row\<close>

lemma buy_row_valid:
  "TradeFormat1 buy_row = Inr \<lparr>v1_trade_date = 20100, v1_account_id = ''ACC001'',
     v1_ticker = ''AAPL'', v1_quantity = 100, v1_price = 185, v1_trade_type = BUY,
     v1_settlement_date = 20102\<rparr>"
  by (simp add: buy_row_def TradeFormat1_def parse_TradeType_def)

lemma sell_row_valid:
  "TradeFormat1 sell_row = Inr \<lparr>v1_trade_date = 20101, v1_account_id = ''ACC001'',
     v1_ticker = ''AAPL'', v1_quantity = 150, v1_price = 371 / 2, v1_trade_type = SELL,
     v1_settlement_date = 20103\<rparr>"
  by (simp add: sell_row_def TradeFormat1_def parse_TradeType_def)

lemma bad_row_invalid: "TradeFormat1 bad_row = Inl ''1 validation error for TradeFormat1''"
  by (simp add: bad_row_def TradeFormat1_def)


lemma overflow_row_valid:
  "TradeFormat1 overflow_row = Inr \<lparr>v1_trade_date = 20100, v1_account_id = ''ACC001'',
     v1_ticker = ''AAPL'', v1_quantity = 2 ^ 63, v1_price = 185, v1_trade_type = BUY,
     v1_settlement_date = 20102\<rparr>"
  by (simp add: overflow_row_def TradeFormat1_def parse_TradeType_def)

lemmas ingest_trade_format1_eval =
  ingest_trade_format1_def account_step_eq commit_eq begin_session_def storable_pending_def
  storable_int_def flushed_def stored_trade_def format1_trade_def signed_quantity_def
  TradeType_value_def Let_def new_report_def empty_store_def ensure_account_exists_def
  query_account_def file_failed_def row_failed_def




section \<open>A position document with one invalid position\<close>

text \<open>
  C5 (defect in the code). The claim asks that a record that fails validation is counted
  as failed, reported with its identifier, and keeps neither the other records from
  being processed nor the accepted ones from being persisted. A row file does this; a
  position document does not. \<open>ingest_bank_positions\<close> has a handler for a position
  that fails inside its loop, but it builds \<open>BankPositionFile(**data)\<close> before the loop,
  and that validates every position: with an empty ticker in the second of two positions
  no record is processed, \<open>records_failed\<close> stays 0, the only error is the file-level
  one, and the valid first position is not persisted.
\<close>

theorem bank_document_rejected_whole:
  "BankPosition good_position =
     Some \<lparr>bp_account_id = ''ACC001'', bp_ticker = ''AAPL'', bp_shares = 100,
           bp_market_value = 18500, bp_custodian_ref = ''CUST_A_12345''\<rparr> \<and>
   BankPosition bad_position = None \<and>
   records_processed (snd (ingest_bank_positions sqlite_library empty_store ''bank.yaml''
                             two_position_document)) = 0 \<and>
   records_failed (snd (ingest_bank_positions sqlite_library empty_store ''bank.yaml''
                          two_position_document)) = 0 \<and>
   errors (snd (ingest_bank_positions sqlite_library empty_store ''bank.yaml''
                  two_position_document)) =
     [''File processing error: 1 validation error for BankPositionFile''] \<and>
   positions (fst (ingest_bank_positions sqlite_library empty_store ''bank.yaml''
                     two_position_document)) = []"
  by (simp add: ingest_bank_positions_def two_position_document_def BankPositionFile_def
      BankPosition_def good_position_def bad_position_def new_report_def empty_store_def
      file_failed_def)

section \<open>A quantity that SQLite cannot hold\<close>

text \<open>
  A row whose quantity is \<open>2 ^ 63\<close> passes validation and is counted as valid. The
  flush before the next row's query raises inside that row's \<open>try\<close>, so the next row is
  counted as failed; the session is then inactive and every later row fails as well, as
  does the commit: the file-level handler rolls back and nothing of the file is stored.
\<close>

lemma format1_session_failure:
  "records_processed (snd (ingest_trade_format1 sqlite_library empty_store ''trades.csv''
                             (map Row [buy_row, overflow_row, buy_row, sell_row]))) = 4 \<and>
   records_valid (snd (ingest_trade_format1 sqlite_library empty_store ''trades.csv''
                         (map Row [buy_row, overflow_row, buy_row, sell_row]))) = 2 \<and>
   records_failed (snd (ingest_trade_format1 sqlite_library empty_store ''trades.csv''
                          (map Row [buy_row, overflow_row, buy_row, sell_row]))) = 2 \<and>
   errors (snd (ingest_trade_format1 sqlite_library empty_store ''trades.csv''
                  (map Row [buy_row, overflow_row, buy_row, sell_row]))) =
     [''Row 4: '' @ overflow_text sqlite_library,
      ''Row 5: '' @ pending_rollback_text sqlite_library,
      ''File processing error: '' @ pending_rollback_text sqlite_library] \<and>
   fst (ingest_trade_format1 sqlite_library empty_store ''trades.csv''
          (map Row [buy_row, overflow_row, buy_row, sell_row])) = empty_store"
  by (simp add: buy_row_valid sell_row_valid overflow_row_valid ingest_trade_format1_eval
      str_nat.simps)

text \<open>
  The same in a position document: here the handler of the position loop is reached, and
  its entries name no position.
\<close>

lemma bank_session_failure:
  "records_processed (snd (ingest_bank_positions sqlite_library empty_store ''bank.yaml''
                             overflow_document)) = 3 \<and>
   records_valid (snd (ingest_bank_positions sqlite_library empty_store ''bank.yaml''
                         overflow_document)) = 1 \<and>
   records_failed (snd (ingest_bank_positions sqlite_library empty_store ''bank.yaml''
                          overflow_document)) = 2 \<and>
   errors (snd (ingest_bank_positions sqlite_library empty_store ''bank.yaml''
                  overflow_document)) =
     [''Position record: '' @ overflow_text sqlite_library,
      ''Position record: '' @ pending_rollback_text sqlite_library,
      ''File processing error: '' @ pending_rollback_text sqlite_library] \<and>
   fst (ingest_bank_positions sqlite_library empty_store ''bank.yaml'' overflow_document)
     = empty_store"
  by (simp add: ingest_bank_positions_def overflow_document_def BankPositionFile_def
      BankPosition_def account_step_eq commit_eq begin_session_def storable_pending_def
      storable_int_def flushed_def bank_position_def extract_custodian_name_def
      Let_def new_report_def empty_store_def ensure_account_exists_def query_account_def
      file_failed_def position_failed_def)

section \<open>Custodian names are assigned once\<close>

lemma keeps_refl: "keeps_custodians s s"
  by (simp add: keeps_custodians_def)

lemma keeps_trans:
  "keeps_custodians s s' \<Longrightarrow> keeps_custodians s' s'' \<Longrightarrow> keeps_custodians s s''"
  by (auto simp: keeps_custodians_def)

lemma keeps_trades [simp]: "keeps_custodians s (s'\<lparr>trades := ts\<rparr>) = keeps_custodians s s'"
  by (simp add: keeps_custodians_def)

lemma keeps_positions [simp]:
  "keeps_custodians s (s'\<lparr>positions := ps\<rparr>) = keeps_custodians s s'"
  by (simp add: keeps_custodians_def)

lemma nonempty_trades [simp]: "custodians_nonempty (s\<lparr>trades := ts\<rparr>) = custodians_nonempty s"
  by (simp add: custodians_nonempty_def)

lemma nonempty_positions [simp]:
  "custodians_nonempty (s\<lparr>positions := ps\<rparr>) = custodians_nonempty s"
  by (simp add: custodians_nonempty_def)

lemma keeps_flushed [simp]:
  "keeps_custodians s (flushed lib ss) = keeps_custodians s (current ss)"
  by (simp add: flushed_def)

lemma nonempty_flushed [simp]:
  "custodians_nonempty (flushed lib ss) = custodians_nonempty (current ss)"
  by (simp add: flushed_def)

lemma set_set_custodian:
  "set (set_custodian aid c as) \<subseteq> set as \<union> {a\<lparr>a_custodian_name := c\<rparr> | a. a \<in> set as}"
  by (induction as) auto

lemma ensure_nonempty:
  "custodians_nonempty s \<Longrightarrow> c \<noteq> Some [] \<Longrightarrow>
   custodians_nonempty (ensure_account_exists s aid c)"
  using set_set_custodian [of aid c "accounts s"]
  by (fastforce simp: ensure_account_exists_def custodians_nonempty_def split: option.splits)

lemma ensure_keeps:
  assumes "custodians_nonempty s"
  shows "keeps_custodians s (ensure_account_exists s aid' c)"
  unfolding keeps_custodians_def
proof (intro allI impI)
  fix aid a
  assume h: "query_account s aid = Some a \<and> a_custodian_name a \<noteq> None"
  then have mem: "a \<in> set (accounts s)"
    by (auto simp: query_account_def find_Some_iff)
  with assms h have t: "truthy (a_custodian_name a)"
    by (auto simp: custodians_nonempty_def truthy_def split: option.splits)
  show "query_account (ensure_account_exists s aid' c) aid = Some a"
  proof (cases "aid' = aid")
    case True
    with h t show ?thesis
      by (simp add: ensure_account_exists_def)
  next
    case False
    with h show ?thesis
      by (auto simp: ensure_account_exists_def query_account_def find_append
          find_set_custodian_other split: option.splits)
  qed
qed

lemma extract_nonempty: "extract_custodian_name r \<noteq> Some []"
  by (simp add: extract_custodian_name_def Let_def split: option.splits)

lemma TradeFormat2_source: "TradeFormat2 row = Inr v \<Longrightarrow> v2_source_system v \<noteq> []"
  by (auto simp: TradeFormat2_def split: option.splits if_splits)

lemma session_keeps_pending_trades [simp]:
  "session_keeps s (ss\<lparr>pending_trades := ts\<rparr>) = session_keeps s ss"
  by (simp add: session_keeps_def)

lemma session_keeps_pending_positions [simp]:
  "session_keeps s (ss\<lparr>pending_positions := ps\<rparr>) = session_keeps s ss"
  by (simp add: session_keeps_def)

lemma session_keeps_begin:
  "custodians_nonempty s \<Longrightarrow> session_keeps s (begin_session s)"
  by (simp add: session_keeps_def begin_session_def keeps_refl)

lemma account_step_keeps:
  assumes "session_keeps s ss" and "c \<noteq> Some []"
  shows "session_keeps s (fst (account_step lib ss r aid c))"
proof -
  from assms(1) have b: "custodians_nonempty (begun ss)" "keeps_custodians s (begun ss)"
    and c: "custodians_nonempty (current ss)" "keeps_custodians s (current ss)"
    by (simp_all add: session_keeps_def)
  from c(1) have f: "custodians_nonempty (flushed lib ss)" by simp
  from c(2) have g: "keeps_custodians s (flushed lib ss)" by simp
  have 1: "custodians_nonempty (ensure_account_exists (flushed lib ss) aid c)"
    using ensure_nonempty [OF f assms(2)] .
  have 2: "keeps_custodians s (ensure_account_exists (flushed lib ss) aid c)"
    using keeps_trans [OF g ensure_keeps [OF f]] .
  show ?thesis
    using b c 1 2 by (simp add: account_step_eq session_keeps_def)
qed

lemma format1_rows_custodians:
  "session_keeps s ss \<Longrightarrow> session_keeps s (fst (snd (format1_rows lib ss r n evs)))"
proof (induction evs arbitrary: ss r n)
  case Nil
  then show ?case by simp
next
  case (Cons ev evs)
  show ?case
  proof (cases ev)
    case (ReadError e)
    with Cons.prems show ?thesis by simp
  next
    case (Row row)
    show ?thesis
    proof (cases "TradeFormat1 row")
      case (Inl e)
      with Row Cons.prems Cons.IH show ?thesis by (simp add: Let_def)
    next
      case (Inr v)
      let ?r = "r\<lparr>records_processed := records_processed r + 1\<rparr>"
      obtain ss1 res where st: "account_step lib ss ?r (v1_account_id v) None = (ss1, res)"
        by (cases "account_step lib ss ?r (v1_account_id v) None") auto
      from account_step_keeps [OF Cons.prems, of None lib ?r "v1_account_id v"] st
      have k: "session_keeps s ss1" by simp
      show ?thesis
      proof (cases res)
        case (Inl e)
        with Row Inr st Cons.IH [OF k] show ?thesis by (simp add: Let_def)
      next
        case (Inr r1)
        from k have "session_keeps s
            (ss1\<lparr>pending_trades := pending_trades ss1 @
                    [format1_trade lib (file_format r1) (file_name r1) v]\<rparr>)"
          by simp
        from Cons.IH [OF this] Row \<open>TradeFormat1 row = Inr v\<close> st Inr
        show ?thesis by (simp add: Let_def)
      qed
    qed
  qed
qed

lemma format2_rows_custodians:
  "session_keeps s ss \<Longrightarrow> session_keeps s (fst (snd (format2_rows lib ss r cs n evs)))"
proof (induction evs arbitrary: ss r cs n)
  case Nil
  then show ?case by simp
next
  case (Cons ev evs)
  show ?case
  proof (cases ev)
    case (ReadError e)
    with Cons.prems show ?thesis by simp
  next
    case (Row row)
    show ?thesis
    proof (cases "TradeFormat2 row")
      case (Inl e)
      with Row Cons.prems Cons.IH show ?thesis by (simp add: Let_def)
    next
      case (Inr v)
      let ?r = "r\<lparr>records_processed := records_processed r + 1\<rparr>"
      obtain ss1 res where st:
        "account_step lib ss ?r (v2_account_id v) (Some (v2_source_system v)) = (ss1, res)"
        by (cases "account_step lib ss ?r (v2_account_id v) (Some (v2_source_system v))") auto
      from TradeFormat2_source [OF Inr] have ne: "Some (v2_source_system v) \<noteq> Some []" by simp
      from account_step_keeps [OF Cons.prems ne, of lib ?r "v2_account_id v"] st
      have k: "session_keeps s ss1" by simp
      show ?thesis
      proof (cases res)
        case (Inl e)
        with Row Inr st Cons.IH [OF k] show ?thesis by (simp add: Let_def)
      next
        case (Inr r1)
        from k have "session_keeps s
            (ss1\<lparr>pending_trades := pending_trades ss1 @
                    [format2_trade lib (file_format r1) (file_name r1) v]\<rparr>)"
          by simp
        from Cons.IH [OF this] Row \<open>TradeFormat2 row = Inr v\<close> st Inr
        show ?thesis by (simp add: Let_def)
      qed
    qed
  qed
qed

lemma bank_rows_custodians:
  "session_keeps s ss \<Longrightarrow> session_keeps s (fst (bank_rows lib ss r cs d ps))"
proof (induction ps arbitrary: ss r cs)
  case Nil
  then show ?case by simp
next
  case (Cons p ps)
  let ?c = "extract_custodian_name (Some (bp_custodian_ref p))"
  let ?r = "r\<lparr>records_processed := records_processed r + 1\<rparr>"
  obtain ss1 res where st: "account_step lib ss ?r (bp_account_id p) ?c = (ss1, res)"
    by (cases "account_step lib ss ?r (bp_account_id p) ?c") auto
  from account_step_keeps [OF Cons.prems extract_nonempty [of "Some (bp_custodian_ref p)"],
      of lib ?r "bp_account_id p"] st
  have k: "session_keeps s ss1" by simp
  show ?case
  proof (cases res)
    case (Inl e)
    with st Cons.IH [OF k] show ?thesis by (simp add: Let_def)
  next
    case (Inr r1)
    from k have "session_keeps s
        (ss1\<lparr>pending_positions := pending_positions ss1 @
                [bank_position (file_name r1) d p]\<rparr>)"
      by simp
    from Cons.IH [OF this] st Inr
    show ?thesis by (simp add: Let_def)
  qed
qed

lemma commit_custodians:
  "session_keeps s ss \<Longrightarrow> commit lib ss = Inr committed \<Longrightarrow>
   custodians_nonempty committed \<and> keeps_custodians s committed"
  by (auto simp: commit_eq session_keeps_def split: if_splits)

lemma ingest_file_custodians:
  assumes "custodians_nonempty s"
  shows "custodians_nonempty (fst (ingest_file lib s file fmt)) \<and>
         keeps_custodians s (fst (ingest_file lib s file fmt))"
proof -
  note b = session_keeps_begin [OF assms]
  have 1: "custodians_nonempty (fst (ingest_trade_format1 lib s f evs)) \<and>
           keeps_custodians s (fst (ingest_trade_format1 lib s f evs))" for f evs
  proof -
    obtain x ss r where eq:
      "format1_rows lib (begin_session s) (new_report f ''CSV_FORMAT1'') 2 evs = (x, ss, r)"
      by (cases "format1_rows lib (begin_session s) (new_report f ''CSV_FORMAT1'') 2 evs") auto
    from format1_rows_custodians [OF b, of lib "new_report f ''CSV_FORMAT1''" 2 evs] eq
    have k: "session_keeps s ss" by simp
    show ?thesis
      using eq assms commit_custodians [OF k, of lib]
      by (cases x; cases "commit lib ss") (simp_all add: ingest_trade_format1_def keeps_refl)
  qed
  have 2: "custodians_nonempty (fst (ingest_trade_format2 lib s f evs)) \<and>
           keeps_custodians s (fst (ingest_trade_format2 lib s f evs))" for f evs
  proof -
    obtain x ss r cs where eq:
      "format2_rows lib (begin_session s) (new_report f ''PIPE_FORMAT2'') [] 2 evs = (x, ss, r, cs)"
      by (cases "format2_rows lib (begin_session s) (new_report f ''PIPE_FORMAT2'') [] 2 evs") auto
    from format2_rows_custodians [OF b, of lib "new_report f ''PIPE_FORMAT2''" "[]" 2 evs] eq
    have k: "session_keeps s ss" by simp
    show ?thesis
      using eq assms commit_custodians [OF k, of lib]
      by (cases x; cases "commit lib ss") (simp_all add: ingest_trade_format2_def keeps_refl)
  qed
  have 3: "custodians_nonempty (fst (ingest_bank_positions lib s f y)) \<and>
           keeps_custodians s (fst (ingest_bank_positions lib s f y))" for f y
  proof (cases y)
    case (LoadError e)
    with assms show ?thesis by (simp add: ingest_bank_positions_def Let_def keeps_refl)
  next
    case (Document data)
    show ?thesis
    proof (cases "BankPositionFile data")
      case (Inl e)
      with Document assms show ?thesis
        by (simp add: ingest_bank_positions_def Let_def keeps_refl)
    next
      case (Inr vf)
      obtain ss r cs where eq:
        "bank_rows lib (begin_session s) (new_report f ''YAML_POSITIONS'') []
           (bf_report_date vf) (bf_positions vf) = (ss, r, cs)"
        by (cases "bank_rows lib (begin_session s) (new_report f ''YAML_POSITIONS'') []
           (bf_report_date vf) (bf_positions vf)") auto
      from bank_rows_custodians [OF b, of lib "new_report f ''YAML_POSITIONS''" "[]"
          "bf_report_date vf" "bf_positions vf"] eq
      have k: "session_keeps s ss" by simp
      show ?thesis
        using Document Inr eq assms commit_custodians [OF k, of lib]
        by (cases "commit lib ss") (simp_all add: ingest_bank_positions_def Let_def keeps_refl)
    qed
  qed
  show ?thesis
    using 1 2 3 assms by (simp add: ingest_file_def keeps_refl)
qed

lemma ingest_calls_custodians:
  "custodians_nonempty s \<Longrightarrow>
   custodians_nonempty (ingest_calls lib calls s) \<and>
   keeps_custodians s (ingest_calls lib calls s)"
proof (induction calls arbitrary: s)
  case Nil
  then show ?case by (simp add: keeps_refl)
next
  case (Cons call calls)
  obtain f fmt where c: "call = (f, fmt)" by (cases call)
  from ingest_file_custodians [OF Cons.prems, of lib f fmt]
  have 1: "custodians_nonempty (fst (ingest_file lib s f fmt))"
    and 2: "keeps_custodians s (fst (ingest_file lib s f fmt))" by simp_all
  from Cons.IH [OF 1] 2 show ?case
    using c by (auto intro: keeps_trans)
qed

lemma empty_store_nonempty: "custodians_nonempty empty_store"
  by (simp add: custodians_nonempty_def empty_store_def)

lemma ensure_other_fields:
  assumes "query_account s aid = Some b"
  shows "\<exists>c. query_account (ensure_account_exists s aid' c') aid = Some (b\<lparr>a_custodian_name := c\<rparr>)"
proof (cases "aid' = aid")
  case True
  show ?thesis
  proof (cases "truthy c' \<and> \<not> truthy (a_custodian_name b)")
    case True
    with \<open>aid' = aid\<close> assms
    have "query_account (ensure_account_exists s aid' c') aid = Some (b\<lparr>a_custodian_name := c'\<rparr>)"
      by (auto simp: ensure_account_exists_def query_account_def find_set_custodian_same)
    then show ?thesis by blast
  next
    case False
    with \<open>aid' = aid\<close> assms
    have "query_account (ensure_account_exists s aid' c') aid
            = Some (b\<lparr>a_custodian_name := a_custodian_name b\<rparr>)"
      by (auto simp: ensure_account_exists_def)
    then show ?thesis by blast
  qed
next
  case False
  with assms
  have "query_account (ensure_account_exists s aid' c') aid
          = Some (b\<lparr>a_custodian_name := a_custodian_name b\<rparr>)"
    by (auto simp: ensure_account_exists_def query_account_def find_append
        find_set_custodian_other split: option.splits)
  then show ?thesis by blast
qed

text \<open>
  C9. Take any sequence of ingestion calls on the database that starts empty (app.py
  removes the database file at start-up), and an account whose custodian name is set after
  those calls. After any further ingestion calls the account row is the same: the same
  custodian name and the same other fields. The test in \<open>ensure_account_exists\<close> is
  \<open>not account.custodian_name\<close>, which the empty string passes too; ingestion never
  stores an empty name (\<open>custodians_nonempty\<close> is kept by every call, also by one whose
  transaction is rolled back), so a name that is set is never replaced. Second part:
  resolving an account that exists changes no field of it other than, possibly, the
  custodian name.
\<close>

theorem custodian_never_overwritten:
  "(query_account (ingest_calls lib before empty_store) aid = Some a \<and>
    a_custodian_name a \<noteq> None
      \<longrightarrow> query_account (ingest_calls lib later (ingest_calls lib before empty_store)) aid
            = Some a) \<and>
   (query_account s aid = Some b
      \<longrightarrow> (\<exists>c. query_account (ensure_account_exists s aid' c') aid =
                 Some (b\<lparr>a_custodian_name := c\<rparr>)))"
proof -
  have "custodians_nonempty (ingest_calls lib before empty_store)"
    using ingest_calls_custodians [OF empty_store_nonempty] by simp
  then have "keeps_custodians (ingest_calls lib before empty_store)
               (ingest_calls lib later (ingest_calls lib before empty_store))"
    using ingest_calls_custodians by simp
  then show ?thesis
    using ensure_other_fields [of s aid b aid' c'] by (simp add: keeps_custodians_def)
qed

text \<open>
  A Format B file sets the custodian of \<open>ACC001\<close> to \<open>CUSTODIAN_A\<close>; a later
  position file whose reference gives \<open>CUSTODIAN_B\<close> leaves it as it is.
\<close>

theorem custodian_never_overwritten_witness:
  "query_account (ingest_calls sqlite_library [(pipe_upload, ''PIPE_FORMAT2'')] empty_store)
     ''ACC001''
     = Some \<lparr>a_account_id = ''ACC001'', a_custodian_name = Some ''CUSTODIAN_A''\<rparr> \<and>
   extract_custodian_name (Some ''CUST_B_22345'') = Some ''CUSTODIAN_B'' \<and>
   query_account (ingest_calls sqlite_library [(bank_upload, ''YAML_POSITIONS'')]
                   (ingest_calls sqlite_library [(pipe_upload, ''PIPE_FORMAT2'')] empty_store))
     ''ACC001''
     = Some \<lparr>a_account_id = ''ACC001'', a_custodian_name = Some ''CUSTODIAN_A''\<rparr> \<and>
   (\<exists>c. query_account
          (ensure_account_exists
             (ingest_calls sqlite_library [(pipe_upload, ''PIPE_FORMAT2'')] empty_store)
             ''ACC001'' (Some ''CUSTODIAN_B'')) ''ACC001''
        = Some \<lparr>a_account_id = ''ACC001'', a_custodian_name = c\<rparr>)"
proof -
  have 1: "query_account (ingest_calls sqlite_library [(pipe_upload, ''PIPE_FORMAT2'')]
                            empty_store) ''ACC001''
     = Some \<lparr>a_account_id = ''ACC001'', a_custodian_name = Some ''CUSTODIAN_A''\<rparr>"
    by (simp add: pipe_upload_def pipe_row_def ingest_file_def ingest_trade_format2_def
        TradeFormat2_def account_step_eq commit_eq begin_session_def storable_pending_def
        storable_int_def format2_trade_def flushed_def
        ensure_account_exists_def query_account_def empty_store_def new_report_def Let_def)
  have 2: "extract_custodian_name (Some ''CUST_B_22345'') = Some ''CUSTODIAN_B''"
    by (simp add: extract_custodian_name_def)
  from custodian_never_overwritten [of sqlite_library "[(pipe_upload, ''PIPE_FORMAT2'')]"
      "''ACC001''"
      "\<lparr>a_account_id = ''ACC001'', a_custodian_name = Some ''CUSTODIAN_A''\<rparr>"
      "[(bank_upload, ''YAML_POSITIONS'')]"
      "ingest_calls sqlite_library [(pipe_upload, ''PIPE_FORMAT2'')] empty_store"
      "\<lparr>a_account_id = ''ACC001'', a_custodian_name = Some ''CUSTODIAN_A''\<rparr>"
      "''ACC001''" "Some ''CUSTODIAN_B''"] 1 2
  show ?thesis by simp
qed

section \<open>Concentration stays between 0 and 100\<close>

lemma positive_part_nonneg:
  "0 \<le> sum_list (map f (filter (\<lambda>p. f p > (0::rat)) xs))"
  by (induction xs) auto

lemma member_le_positive_part:
  "x \<in> set xs \<Longrightarrow> f x > (0::rat) \<Longrightarrow> f x \<le> sum_list (map f (filter (\<lambda>p. f p > 0) xs))"
proof (induction xs)
  case Nil
  then show ?case by simp
next
  case (Cons y ys)
  have nn: "0 \<le> sum_list (map f (filter (\<lambda>p. f p > 0) ys))"
    by (rule positive_part_nonneg)
  from Cons nn show ?case by (cases "x = y") (auto simp: add_increasing)
qed

lemma pct_bounds:
  fixes m t :: rat
  assumes "0 < m" and "m \<le> t"
  shows "0 \<le> m / t * 100 \<and> m / t * 100 \<le> 100"
proof -
  from assms have t: "0 < t" by simp
  with assms have "m / t \<le> 1" by simp
  then have "m / t * 100 \<le> 1 * 100" by (rule mult_right_mono) simp
  moreover from assms t have "0 \<le> m / t * 100" by simp
  ultimately show ?thesis by simp
qed

lemma check_trade_account_sound:
  assumes "v \<in> set (check_trade_account a pl)"
  shows "\<exists>pos \<in> set pl. 0 < tp_market_value pos \<and>
           v_account_id v = a \<and> v_ticker v = tp_ticker pos \<and> v_shares v = tp_shares pos \<and>
           v_market_value v = tp_market_value pos \<and>
           v_account_total_value v =
             sum_list (map tp_market_value (filter (\<lambda>p. tp_market_value p > 0) pl)) \<and>
           v_concentration_pct v = v_market_value v / v_account_total_value v * 100 \<and>
           threshold < v_market_value v / v_account_total_value v"
proof -
  let ?total = "sum_list (map tp_market_value (filter (\<lambda>p. tp_market_value p > 0) pl))"
  from assms obtain pos where pos: "pos \<in> set pl"
    and v: "v \<in> set (if tp_market_value pos \<le> 0 then []
           else (let concentration = (if ?total > 0
                                      then tp_market_value pos / ?total else 0)
                 in if concentration > threshold
                    then [\<lparr>v_account_id = a,
                           v_ticker = tp_ticker pos,
                           v_shares = tp_shares pos,
                           v_market_value = tp_market_value pos,
                           v_account_total_value = ?total,
                           v_concentration_pct = concentration * 100,
                           v_threshold_pct = 20,
                           v_excess_pct = (concentration - threshold) * 100\<rparr>]
                    else []))"
    unfolding check_trade_account_def Let_def by auto
  have mv: "0 < tp_market_value pos"
    using v by (cases "tp_market_value pos \<le> 0") auto
  have tot: "0 < ?total"
    using member_le_positive_part [of pos pl tp_market_value] pos mv by simp
  from v mv tot have "threshold < tp_market_value pos / ?total \<and>
     v = \<lparr>v_account_id = a, v_ticker = tp_ticker pos, v_shares = tp_shares pos,
          v_market_value = tp_market_value pos, v_account_total_value = ?total,
          v_concentration_pct = tp_market_value pos / ?total * 100, v_threshold_pct = 20,
          v_excess_pct = (tp_market_value pos / ?total - threshold) * 100\<rparr>"
    by (simp add: Let_def split: if_splits)
  with pos mv show ?thesis by auto
qed

lemma check_bank_account_sound:
  assumes "v \<in> set (check_bank_account a pl)"
  shows "\<exists>pos \<in> set pl. 0 < p_market_value pos \<and>
           v_account_id v = a \<and> v_ticker v = p_ticker pos \<and> v_shares v = p_shares pos \<and>
           v_market_value v = p_market_value pos \<and>
           v_account_total_value v =
             sum_list (map p_market_value (filter (\<lambda>p. p_market_value p > 0) pl)) \<and>
           v_concentration_pct v = v_market_value v / v_account_total_value v * 100 \<and>
           threshold < v_market_value v / v_account_total_value v"
proof -
  let ?total = "sum_list (map p_market_value (filter (\<lambda>p. p_market_value p > 0) pl))"
  from assms obtain pos where pos: "pos \<in> set pl"
    and v: "v \<in> set (if p_market_value pos \<le> 0 then []
           else (let concentration = (if ?total > 0
                                      then p_market_value pos / ?total else 0)
                 in if concentration > threshold
                    then [\<lparr>v_account_id = a,
                           v_ticker = p_ticker pos,
                           v_shares = p_shares pos,
                           v_market_value = p_market_value pos,
                           v_account_total_value = ?total,
                           v_concentration_pct = concentration * 100,
                           v_threshold_pct = 20,
                           v_excess_pct = (concentration - threshold) * 100,
                           v_custodian_ref = p_custodian_ref pos\<rparr>]
                    else []))"
    unfolding check_bank_account_def Let_def by auto
  have mv: "0 < p_market_value pos"
    using v by (cases "p_market_value pos \<le> 0") auto
  have tot: "0 < ?total"
    using member_le_positive_part [of pos pl p_market_value] pos mv by simp
  from v mv tot have "threshold < p_market_value pos / ?total \<and>
     v = \<lparr>v_account_id = a, v_ticker = p_ticker pos, v_shares = p_shares pos,
          v_market_value = p_market_value pos, v_account_total_value = ?total,
          v_concentration_pct = p_market_value pos / ?total * 100, v_threshold_pct = 20,
          v_excess_pct = (p_market_value pos / ?total - threshold) * 100,
          v_custodian_ref = p_custodian_ref pos\<rparr>"
    by (simp add: Let_def split: if_splits)
  with pos mv show ?thesis by auto
qed

lemma check_trade_account_bounds:
  assumes "v \<in> set (check_trade_account a pl)"
  shows "0 < v_market_value v \<and> v_market_value v \<le> v_account_total_value v \<and>
         v_concentration_pct v = v_market_value v / v_account_total_value v * 100 \<and>
         0 \<le> v_concentration_pct v \<and> v_concentration_pct v \<le> 100"
proof -
  from check_trade_account_sound [OF assms] obtain pos where
    p: "pos \<in> set pl" "0 < tp_market_value pos" "v_market_value v = tp_market_value pos"
       "v_account_total_value v =
          sum_list (map tp_market_value (filter (\<lambda>p. tp_market_value p > 0) pl))"
       "v_concentration_pct v = v_market_value v / v_account_total_value v * 100"
    by blast
  from member_le_positive_part [of pos pl tp_market_value] p
  have le: "v_market_value v \<le> v_account_total_value v" by simp
  from p have pos: "0 < v_market_value v" by simp
  from pct_bounds [OF pos le] p(5) pos le show ?thesis by simp
qed

lemma check_bank_account_bounds:
  assumes "v \<in> set (check_bank_account a pl)"
  shows "0 < v_market_value v \<and> v_market_value v \<le> v_account_total_value v \<and>
         v_concentration_pct v = v_market_value v / v_account_total_value v * 100 \<and>
         0 \<le> v_concentration_pct v \<and> v_concentration_pct v \<le> 100"
proof -
  from check_bank_account_sound [OF assms] obtain pos where
    p: "pos \<in> set pl" "0 < p_market_value pos" "v_market_value v = p_market_value pos"
       "v_account_total_value v =
          sum_list (map p_market_value (filter (\<lambda>p. p_market_value p > 0) pl))"
       "v_concentration_pct v = v_market_value v / v_account_total_value v * 100"
    by blast
  from member_le_positive_part [of pos pl p_market_value] p
  have le: "v_market_value v \<le> v_account_total_value v" by simp
  from p have pos: "0 < v_market_value v" by simp
  from pct_bounds [OF pos le] p(5) pos le show ?thesis by simp
qed

lemma violations_from_trades_origin:
  assumes "v \<in> set (violations_from_trades s d)"
  shows "\<exists>a pl. (a, pl) \<in> set (group_account_positions
                     (value_positions_map (filter (\<lambda>t. t_trade_date t \<le> d) (trades s)) []) [])
               \<and> v \<in> set (check_trade_account a pl)"
proof -
  from assms have "filter (\<lambda>t. t_trade_date t \<le> d) (trades s) \<noteq> []"
    by (auto simp: violations_from_trades_def Let_def split: if_splits)
  with assms show ?thesis
    by (simp add: violations_from_trades_def Let_def) blast
qed

lemma violations_from_bank_origin:
  assumes "v \<in> set (violations_from_bank s d)"
  shows "\<exists>a pl. (a, pl) \<in> set (group_bank_positions
                     (filter (\<lambda>p. p_report_date p = d) (positions s)) [])
               \<and> v \<in> set (check_bank_account a pl)"
proof -
  from assms have "filter (\<lambda>p. p_report_date p = d) (positions s) \<noteq> []"
    by (auto simp: violations_from_bank_def Let_def split: if_splits)
  with assms show ?thesis
    by (simp add: violations_from_bank_def Let_def) blast
qed

text \<open>
  C1. Every violation of the trade-derived list and every violation of the
  snapshot-derived list has \<open>0 \<le> concentration_pct \<le> 100\<close>: the violation's own value is
  strictly positive, the account total is the sum of the strictly positive values of the
  account's evaluated positions, the violation's position is one of them, and
  \<open>concentration_pct\<close> is the quotient times 100. (Amounts are exact rationals here; the
  roundings of \<open>Decimal\<close> and \<open>float\<close> are monotone and keep 0 and 100.)
\<close>

theorem concentration_bounded:
  "(\<forall>v \<in> set (fst (compliance_concentration s d)).
      0 \<le> v_concentration_pct v \<and> v_concentration_pct v \<le> 100 \<and>
      0 < v_market_value v \<and> v_market_value v \<le> v_account_total_value v \<and>
      v_concentration_pct v = v_market_value v / v_account_total_value v * 100) \<and>
   (\<forall>v \<in> set (snd (compliance_concentration s d)).
      0 \<le> v_concentration_pct v \<and> v_concentration_pct v \<le> 100 \<and>
      0 < v_market_value v \<and> v_market_value v \<le> v_account_total_value v \<and>
      v_concentration_pct v = v_market_value v / v_account_total_value v * 100)"
proof (rule conjI; rule ballI)
  fix v assume "v \<in> set (fst (compliance_concentration s d))"
  then have "v \<in> set (violations_from_trades s d)"
    by (simp add: compliance_concentration_def)
  from violations_from_trades_origin [OF this] obtain a pl
    where "v \<in> set (check_trade_account a pl)" by blast
  from check_trade_account_bounds [OF this]
  show "0 \<le> v_concentration_pct v \<and> v_concentration_pct v \<le> 100 \<and>
      0 < v_market_value v \<and> v_market_value v \<le> v_account_total_value v \<and>
      v_concentration_pct v = v_market_value v / v_account_total_value v * 100"
    by simp
next
  fix v assume "v \<in> set (snd (compliance_concentration s d))"
  then have "v \<in> set (violations_from_bank s d)"
    by (simp add: compliance_concentration_def)
  from violations_from_bank_origin [OF this] obtain a pl
    where "v \<in> set (check_bank_account a pl)" by blast
  from check_bank_account_bounds [OF this]
  show "0 \<le> v_concentration_pct v \<and> v_concentration_pct v \<le> 100 \<and>
      0 < v_market_value v \<and> v_market_value v \<le> v_account_total_value v \<and>
      v_concentration_pct v = v_market_value v / v_account_total_value v * 100"
    by simp
qed

lemma demo_compliance:
  "compliance_concentration demo_store 20100 =
    ([\<lparr>v_account_id = ''ACC001'', v_ticker = ''NVDA'', v_shares = 100,
       v_market_value = 40424, v_account_total_value = 40424,
       v_concentration_pct = 100, v_threshold_pct = 20, v_excess_pct = 80\<rparr>],
     [\<lparr>v_account_id = ''ACC001'', v_ticker = ''NVDA'', v_shares = 75,
       v_market_value = 30318, v_account_total_value = 34418,
       v_concentration_pct = 1515900 / 17209, v_threshold_pct = 20,
       v_excess_pct = 1171720 / 17209,
       v_custodian_ref = Some ''CUST_A_12345''\<rparr>])"
  by code_simp

text \<open>
  On \<open>demo_store\<close> at day 20100 both lists hold a violation: the long position is 100\<open>%\<close>
  of a total that leaves the short position out.
\<close>

theorem concentration_bounded_witness:
  "demo_trade_violation \<in> set (fst (compliance_concentration demo_store 20100)) \<and>
   0 \<le> v_concentration_pct demo_trade_violation \<and>
   v_concentration_pct demo_trade_violation \<le> 100 \<and>
   demo_bank_violation \<in> set (snd (compliance_concentration demo_store 20100)) \<and>
   0 \<le> v_concentration_pct demo_bank_violation \<and>
   v_concentration_pct demo_bank_violation \<le> 100"
  using concentration_bounded [of demo_store 20100]
  by (simp add: demo_compliance demo_trade_violation_def demo_bank_violation_def)

section \<open>Positions derived from trades\<close>

lemma add_trade_cost_shares: "ce_shares (add_trade_cost t e) = ce_shares e + t_quantity t"
  by (simp add: add_trade_cost_def Let_def split: option.splits)

lemma cost_positions_map_shares:
  "map_option ce_shares (map_of (cost_positions_map ts m) k) =
     (if k \<in> t_ticker ` set ts \<or> map_of m k \<noteq> None
      then Some ((case map_of m k of None \<Rightarrow> 0 | Some e \<Rightarrow> ce_shares e) +
                 sum_list (map t_quantity (filter (\<lambda>t. t_ticker t = k) ts)))
      else None)"
proof (induction ts arbitrary: m)
  case Nil
  show ?case by (auto split: option.splits)
next
  case (Cons t ts)
  show ?case
    by (simp add: Cons.IH Let_def update_conv' add_trade_cost_shares split: option.splits)
qed

lemma cost_positions_map_distinct:
  "distinct (map fst m) \<Longrightarrow> distinct (map fst (cost_positions_map ts m))"
  by (induction ts arbitrary: m) (simp_all add: Let_def distinct_update)

lemma derived_result_tickers:
  "map dp_ticker (derived_result m) = map fst (filter (\<lambda>(k, e). ce_shares e \<noteq> 0) m)"
  by (induction m rule: derived_result.induct) simp_all

lemma derived_result_member:
  "p \<in> set (derived_result m) \<Longrightarrow>
   dp_market_value p = None \<and> dp_shares p \<noteq> 0 \<and>
   (\<exists>e. (dp_ticker p, e) \<in> set m \<and> ce_shares e = dp_shares p)"
  by (induction m rule: derived_result.induct) (auto split: if_splits)

lemma filter_ticker_net:
  "sum_list (map t_quantity (filter (\<lambda>t. t_ticker t = k)
      (filter (\<lambda>t. t_account_id t = account_id \<and> t_trade_date t \<le> query_date) (trades s))))
   = net_shares s account_id k query_date"
proof -
  have eq: "filter (\<lambda>t. t_ticker t = k)
          (filter (\<lambda>t. t_account_id t = account_id \<and> t_trade_date t \<le> query_date) xs)
        = filter (\<lambda>t. t_trade_date t \<le> query_date \<and> t_account_id t = account_id \<and>
                        t_ticker t = k) xs" for xs
    by (induction xs) auto
  show ?thesis by (simp only: net_shares_def eq)
qed

lemma cost_positions_map_lookup:
  "map_option ce_shares (map_of (cost_positions_map
      (filter (\<lambda>t. t_account_id t = account_id \<and> t_trade_date t \<le> query_date) (trades s)) []) k) =
   (if k \<in> t_ticker ` set (filter (\<lambda>t. t_account_id t = account_id \<and> t_trade_date t \<le> query_date)
                             (trades s))
    then Some (net_shares s account_id k query_date) else None)"
  unfolding cost_positions_map_shares filter_ticker_net by simp

lemma net_shares_zero:
  assumes "k \<notin> t_ticker ` set (filter (\<lambda>t. t_account_id t = account_id \<and> t_trade_date t \<le> query_date)
                             (trades s))"
  shows "net_shares s account_id k query_date = 0"
proof -
  from assms have "filter (\<lambda>t. t_ticker t = k)
      (filter (\<lambda>t. t_account_id t = account_id \<and> t_trade_date t \<le> query_date) (trades s)) = []"
    unfolding filter_empty_conv by blast
  with filter_ticker_net [of k account_id query_date s] show ?thesis by simp
qed

text \<open>
  C7. When \<open>calculate_positions_from_trades\<close> answers with positions (the account has
  a trade on or before the date), every returned position has \<open>market_value = None\<close> and a
  share count that is not zero and equals the net signed quantity of the account's trades
  in that ticker up to the date; a ticker is returned exactly when that net quantity is
  not zero, so a ticker with net quantity zero is left out; no ticker is returned twice.
\<close>

theorem fallback_positions_nonzero:
  assumes "calculate_positions_from_trades s account_id query_date = Positions ps"
  shows "(\<forall>p \<in> set ps. dp_market_value p = None \<and> dp_shares p \<noteq> 0 \<and>
                        dp_shares p = net_shares s account_id (dp_ticker p) query_date) \<and>
         (\<forall>ticker. ticker \<in> dp_ticker ` set ps \<longleftrightarrow>
                     net_shares s account_id ticker query_date \<noteq> 0) \<and>
         distinct (map dp_ticker ps)"
proof -
  let ?ts = "filter (\<lambda>t. t_account_id t = account_id \<and> t_trade_date t \<le> query_date) (trades s)"
  let ?m = "cost_positions_map ?ts []"
  from assms have ps: "ps = derived_result ?m"
    by (simp add: calculate_positions_from_trades_def Let_def split: if_splits)
  have dist: "distinct (map fst ?m)"
    by (rule cost_positions_map_distinct) simp
  note look = cost_positions_map_lookup [of account_id query_date s]
  have entry: "ce_shares e = net_shares s account_id k query_date" if "(k, e) \<in> set ?m" for k e
  proof -
    from that dist have "map_of ?m k = Some e" by simp
    with look [of k] show ?thesis by (simp split: if_splits)
  qed
  have 1: "dp_market_value p = None \<and> dp_shares p \<noteq> 0 \<and>
           dp_shares p = net_shares s account_id (dp_ticker p) query_date"
    if "p \<in> set ps" for p
  proof -
    from that ps have "p \<in> set (derived_result ?m)" by simp
    from derived_result_member [OF this] obtain e where
      a: "dp_market_value p = None" "dp_shares p \<noteq> 0" and
      b: "(dp_ticker p, e) \<in> set ?m" "ce_shares e = dp_shares p" by blast
    from entry [OF b(1)] a b(2) show ?thesis by simp
  qed
  have 2: "ticker \<in> dp_ticker ` set ps \<longleftrightarrow> net_shares s account_id ticker query_date \<noteq> 0"
    for ticker
  proof
    assume "ticker \<in> dp_ticker ` set ps"
    then obtain p where "p \<in> set ps" "dp_ticker p = ticker" by blast
    with 1 [of p] show "net_shares s account_id ticker query_date \<noteq> 0" by simp
  next
    assume nz: "net_shares s account_id ticker query_date \<noteq> 0"
    with net_shares_zero [of ticker account_id query_date s]
    have "ticker \<in> t_ticker ` set ?ts" by blast
    with look [of ticker] obtain e where e: "map_of ?m ticker = Some e"
      "ce_shares e = net_shares s account_id ticker query_date"
      by (cases "map_of ?m ticker") simp_all
    from e(1) have "(ticker, e) \<in> set ?m" by (rule map_of_SomeD)
    with e(2) nz have "(ticker, e) \<in> set (filter (\<lambda>(k, e). ce_shares e \<noteq> 0) ?m)"
      by simp
    then have "fst (ticker, e) \<in> fst ` set (filter (\<lambda>(k, e). ce_shares e \<noteq> 0) ?m)"
      by (rule imageI)
    then have "ticker \<in> set (map dp_ticker (derived_result ?m))"
      by (simp only: derived_result_tickers set_map fst_conv)
    then show "ticker \<in> dp_ticker ` set ps"
      by (simp only: ps set_map)
  qed
  have 3: "distinct (map dp_ticker ps)"
    unfolding ps derived_result_tickers using dist by (rule distinct_map_filter)
  from 1 2 3 show ?thesis by blast
qed

lemma demo_fallback:
  "calculate_positions_from_trades demo_store ''ACC001'' 20100 =
     Positions
      [\<lparr>dp_ticker = ''NVDA'', dp_shares = 100, dp_cost_basis = 10106 / 25,
         dp_total_cost = 40424, dp_market_value = None,
         dp_note = ''Calculated from trades; no current market value''\<rparr>,
       \<lparr>dp_ticker = ''TSLA'', dp_shares = - 100, dp_cost_basis = - (10106 / 25),
         dp_total_cost = 40424, dp_market_value = None,
         dp_note = ''Calculated from trades; no current market value''\<rparr>]"
  by code_simp

text \<open>
  On \<open>demo_store\<close> the account bought and sold 50 AAPL: AAPL is left out.
\<close>

theorem fallback_positions_nonzero_witness:
  "(\<exists>ps. calculate_positions_from_trades demo_store ''ACC001'' 20100 = Positions ps \<and>
         map dp_ticker ps = [''NVDA'', ''TSLA''] \<and>
         map dp_shares ps = [100, - 100] \<and>
         map dp_market_value ps = [None, None]) \<and>
   net_shares demo_store ''ACC001'' ''AAPL'' 20100 = 0 \<and>
   net_shares demo_store ''ACC001'' ''TSLA'' 20100 = - 100 \<and>
   net_shares demo_store ''ACC001'' ''NVDA'' 20100 = 100"
  using fallback_positions_nonzero [OF demo_fallback]
    fallback_positions_nonzero [OF demo_fallback, THEN conjunct2, THEN conjunct1, THEN spec,
      of "''AAPL''"]
    demo_fallback
  by simp

section \<open>Reconciliation\<close>

lemma expected_positions_map_lookup:
  "map_of (expected_positions_map ts m) k =
     (if k \<in> (\<lambda>t. (t_account_id t, t_ticker t)) ` set ts \<or> map_of m k \<noteq> None
      then Some ((case map_of m k of None \<Rightarrow> 0 | Some q \<Rightarrow> q) +
                 sum_list (map t_quantity
                   (filter (\<lambda>t. (t_account_id t, t_ticker t) = k) ts)))
      else None)"
proof (induction ts arbitrary: m)
  case Nil
  show ?case by (auto split: option.splits)
next
  case (Cons t ts)
  show ?case
    by (simp add: Cons.IH Let_def update_conv' split: option.splits)
qed

lemma bank_positions_map_lookup:
  "map_of (bank_positions_map ps m) k =
     (case filter (\<lambda>p. (p_account_id p, p_ticker p) = k) ps of
        [] \<Rightarrow> map_of m k
      | x # xs \<Rightarrow> Some (p_shares (last (x # xs))))"
proof (induction ps arbitrary: m)
  case Nil
  show ?case by simp
next
  case (Cons p ps)
  show ?case
    by (simp add: Cons.IH update_conv' split: list.splits)
qed

lemma expected_is_net_shares:
  "(case map_of (expected_positions_map (filter (\<lambda>t. t_trade_date t \<le> d) (trades s)) []) k of
      None \<Rightarrow> 0 | Some q \<Rightarrow> q) = net_shares s (fst k) (snd k) d"
proof -
  have eq: "filter (\<lambda>t. (t_account_id t, t_ticker t) = k) (filter (\<lambda>t. t_trade_date t \<le> d) xs)
        = filter (\<lambda>t. t_trade_date t \<le> d \<and> t_account_id t = fst k \<and> t_ticker t = snd k) xs"
    for xs
    by (induction xs) auto
  have "filter (\<lambda>t. (t_account_id t, t_ticker t) = k) (filter (\<lambda>t. t_trade_date t \<le> d) (trades s)) = []"
    if "k \<notin> (\<lambda>t. (t_account_id t, t_ticker t)) ` set (filter (\<lambda>t. t_trade_date t \<le> d) (trades s))"
    using that unfolding filter_empty_conv by blast
  then show ?thesis
    unfolding expected_positions_map_lookup net_shares_def eq [symmetric]
    by (auto simp del: filter_filter)
qed

lemma actual_is_snapshot_shares:
  "(case map_of (bank_positions_map (filter (\<lambda>p. p_report_date p = d) (positions s)) []) k of
      None \<Rightarrow> 0 | Some q \<Rightarrow> q) = snapshot_shares s (fst k) (snd k) d"
proof -
  have eq: "filter (\<lambda>p. (p_account_id p, p_ticker p) = k) (filter (\<lambda>p. p_report_date p = d) xs)
        = filter (\<lambda>p. p_report_date p = d \<and> p_account_id p = fst k \<and> p_ticker p = snd k) xs"
    for xs
    by (induction xs) auto
  show ?thesis
    unfolding bank_positions_map_lookup snapshot_shares_def eq
    by (simp split: list.splits)
qed

lemma expected_keys:
  "fst ` set (expected_positions_map (filter (\<lambda>t. t_trade_date t \<le> d) (trades s)) [])
     = trade_keys s d"
proof -
  have "fst ` set (expected_positions_map ts []) = (\<lambda>t. (t_account_id t, t_ticker t)) ` set ts"
    for ts
    unfolding dom_map_of_conv_image_fst [symmetric] dom_def expected_positions_map_lookup
    by auto
  then show ?thesis by (simp add: trade_keys_def)
qed

lemma bank_keys:
  "fst ` set (bank_positions_map (filter (\<lambda>p. p_report_date p = d) (positions s)) [])
     = snapshot_keys s d"
proof -
  have "fst ` set (bank_positions_map ps []) = (\<lambda>p. (p_account_id p, p_ticker p)) ` set ps"
    for ps
  proof -
    have "(map_of (bank_positions_map ps []) k \<noteq> None) =
          (k \<in> (\<lambda>p. (p_account_id p, p_ticker p)) ` set ps)" for k
    proof -
      have "(filter (\<lambda>p. (p_account_id p, p_ticker p) = k) ps \<noteq> []) =
            (k \<in> (\<lambda>p. (p_account_id p, p_ticker p)) ` set ps)"
        by (auto simp: filter_empty_conv)
      then show ?thesis
        unfolding bank_positions_map_lookup
        by (cases "filter (\<lambda>p. (p_account_id p, p_ticker p) = k) ps") simp_all
    qed
    then show ?thesis
      unfolding dom_map_of_conv_image_fst [symmetric] dom_def by blast
  qed
  then show ?thesis by (simp add: snapshot_keys_def)
qed

lemma discrepancy_keys_filter:
  "map discrepancy_key (concat (map (\<lambda>key.
      if E key \<noteq> A key
      then [\<lparr>d_account_id = fst key, d_ticker = snd key, d_expected_shares = E key,
             d_actual_shares = A key, d_difference = D key, d_status = S key\<rparr>]
      else []) keys))
   = filter (\<lambda>key. E key \<noteq> A key) keys"
  by (induction keys) (simp_all add: discrepancy_key_def)

lemma discrepancy_member:
  assumes "x \<in> set (concat (map (\<lambda>key.
      if E key \<noteq> A key
      then [\<lparr>d_account_id = fst key, d_ticker = snd key, d_expected_shares = E key,
             d_actual_shares = A key, d_difference = D key, d_status = S key\<rparr>]
      else []) keys))"
  shows "d_expected_shares x = E (discrepancy_key x) \<and> d_actual_shares x = A (discrepancy_key x) \<and>
         d_difference x = D (discrepancy_key x) \<and> d_status x = S (discrepancy_key x)"
  using assms by (auto simp: discrepancy_key_def split: if_splits)

lemma reconciliation_unfold:
  "reconciliation s d =
     concat (map (\<lambda>key.
        if net_shares s (fst key) (snd key) d \<noteq> snapshot_shares s (fst key) (snd key) d
        then [\<lparr>d_account_id = fst key, d_ticker = snd key,
               d_expected_shares = net_shares s (fst key) (snd key) d,
               d_actual_shares = snapshot_shares s (fst key) (snd key) d,
               d_difference = snapshot_shares s (fst key) (snd key) d
                              - net_shares s (fst key) (snd key) d,
               d_status = (if snapshot_shares s (fst key) (snd key) d = 0 then ''missing_in_bank''
                           else if net_shares s (fst key) (snd key) d = 0 then ''missing_in_trades''
                           else ''quantity_mismatch'')\<rparr>]
        else [])
       (sort (remdups
          (map fst (expected_positions_map (filter (\<lambda>t. t_trade_date t \<le> d) (trades s)) []) @
           map fst (bank_positions_map (filter (\<lambda>p. p_report_date p = d) (positions s)) [])))))"
  unfolding reconciliation_def Let_def expected_is_net_shares actual_is_snapshot_shares ..

text \<open>
  C2. For every store and query date the list that \<open>reconciliation\<close> returns is
  sorted by \<open>(account_id, ticker)\<close> and has no key twice; its keys are exactly the keys
  of the union of the trade keys (trades dated on or before the date) and the snapshot keys
  (positions of that date) whose expected shares differ from the actual shares; and every
  entry carries the expected shares (\<open>net_shares\<close>), the actual shares
  (\<open>snapshot_shares\<close>: the snapshot row's shares, 0 without a row; were several rows
  stored for one key and date, the last one), \<open>difference = actual - expected\<close>, and the
  status \<open>missing_in_bank\<close> when actual is 0, else \<open>missing_in_trades\<close> when expected
  is 0, else \<open>quantity_mismatch\<close>. A key with equal values has no entry.
\<close>

theorem reconciliation_spec:
  "sorted (map discrepancy_key (reconciliation s d)) \<and>
   distinct (map discrepancy_key (reconciliation s d)) \<and>
   set (map discrepancy_key (reconciliation s d)) =
     {k \<in> trade_keys s d \<union> snapshot_keys s d.
        net_shares s (fst k) (snd k) d \<noteq> snapshot_shares s (fst k) (snd k) d} \<and>
   (\<forall>x \<in> set (reconciliation s d).
      d_expected_shares x = net_shares s (d_account_id x) (d_ticker x) d \<and>
      d_actual_shares x = snapshot_shares s (d_account_id x) (d_ticker x) d \<and>
      d_expected_shares x \<noteq> d_actual_shares x \<and>
      d_difference x = d_actual_shares x - d_expected_shares x \<and>
      d_status x = (if d_actual_shares x = 0 then ''missing_in_bank''
                    else if d_expected_shares x = 0 then ''missing_in_trades''
                    else ''quantity_mismatch''))"
proof -
  let ?keys = "sort (remdups
          (map fst (expected_positions_map (filter (\<lambda>t. t_trade_date t \<le> d) (trades s)) []) @
           map fst (bank_positions_map (filter (\<lambda>p. p_report_date p = d) (positions s)) [])))"
  let ?ne = "\<lambda>key. net_shares s (fst key) (snd key) d \<noteq> snapshot_shares s (fst key) (snd key) d"
  have keys: "map discrepancy_key (reconciliation s d) = filter ?ne ?keys"
    unfolding reconciliation_unfold by (rule discrepancy_keys_filter)
  have set_keys: "set ?keys = trade_keys s d \<union> snapshot_keys s d"
    using expected_keys [of d s] bank_keys [of d s] by simp
  have 1: "sorted (map discrepancy_key (reconciliation s d))"
    unfolding keys by (rule sorted_wrt_filter) simp
  have 2: "distinct (map discrepancy_key (reconciliation s d))"
    unfolding keys by simp
  have 3: "set (map discrepancy_key (reconciliation s d)) =
     {k \<in> trade_keys s d \<union> snapshot_keys s d.
        net_shares s (fst k) (snd k) d \<noteq> snapshot_shares s (fst k) (snd k) d}"
    unfolding keys set_filter set_keys ..
  have 4: "d_expected_shares x = net_shares s (d_account_id x) (d_ticker x) d \<and>
      d_actual_shares x = snapshot_shares s (d_account_id x) (d_ticker x) d \<and>
      d_expected_shares x \<noteq> d_actual_shares x \<and>
      d_difference x = d_actual_shares x - d_expected_shares x \<and>
      d_status x = (if d_actual_shares x = 0 then ''missing_in_bank''
                    else if d_expected_shares x = 0 then ''missing_in_trades''
                    else ''quantity_mismatch'')"
    if "x \<in> set (reconciliation s d)" for x
  proof -
    from that have "discrepancy_key x \<in> set (map discrepancy_key (reconciliation s d))"
      by simp
    then have ne: "?ne (discrepancy_key x)" unfolding 3 by simp
    from that have m: "x \<in> set (concat (map (\<lambda>key.
        if net_shares s (fst key) (snd key) d \<noteq> snapshot_shares s (fst key) (snd key) d
        then [\<lparr>d_account_id = fst key, d_ticker = snd key,
               d_expected_shares = net_shares s (fst key) (snd key) d,
               d_actual_shares = snapshot_shares s (fst key) (snd key) d,
               d_difference = snapshot_shares s (fst key) (snd key) d
                              - net_shares s (fst key) (snd key) d,
               d_status = (if snapshot_shares s (fst key) (snd key) d = 0 then ''missing_in_bank''
                           else if net_shares s (fst key) (snd key) d = 0 then ''missing_in_trades''
                           else ''quantity_mismatch'')\<rparr>]
        else []) ?keys))"
      unfolding reconciliation_unfold .
    have "d_expected_shares x = net_shares s (fst (discrepancy_key x)) (snd (discrepancy_key x)) d \<and>
          d_actual_shares x = snapshot_shares s (fst (discrepancy_key x)) (snd (discrepancy_key x)) d \<and>
          d_difference x = snapshot_shares s (fst (discrepancy_key x)) (snd (discrepancy_key x)) d
                              - net_shares s (fst (discrepancy_key x)) (snd (discrepancy_key x)) d \<and>
          d_status x = (if snapshot_shares s (fst (discrepancy_key x)) (snd (discrepancy_key x)) d = 0
                        then ''missing_in_bank''
                        else if net_shares s (fst (discrepancy_key x)) (snd (discrepancy_key x)) d = 0
                        then ''missing_in_trades'' else ''quantity_mismatch'')"
      by (rule discrepancy_member
          [where E = "\<lambda>key. net_shares s (fst key) (snd key) d"
             and A = "\<lambda>key. snapshot_shares s (fst key) (snd key) d"
             and D = "\<lambda>key. snapshot_shares s (fst key) (snd key) d
                              - net_shares s (fst key) (snd key) d"
             and S = "\<lambda>key. if snapshot_shares s (fst key) (snd key) d = 0 then ''missing_in_bank''
                           else if net_shares s (fst key) (snd key) d = 0 then ''missing_in_trades''
                           else ''quantity_mismatch''", OF m])
    with ne show ?thesis by (simp add: discrepancy_key_def)
  qed
  from 1 2 3 4 show ?thesis by blast
qed

lemma demo_reconciliation:
  "reconciliation demo_store 20100 =
    [\<lparr>d_account_id = ''ACC001'', d_ticker = ''MSFT'', d_expected_shares = 0,
       d_actual_shares = 10, d_difference = 10, d_status = ''missing_in_trades''\<rparr>,
     \<lparr>d_account_id = ''ACC001'', d_ticker = ''NVDA'', d_expected_shares = 100,
       d_actual_shares = 75, d_difference = - 25, d_status = ''quantity_mismatch''\<rparr>,
     \<lparr>d_account_id = ''ACC001'', d_ticker = ''TSLA'', d_expected_shares = - 100,
       d_actual_shares = 0, d_difference = 100, d_status = ''missing_in_bank''\<rparr>]"
  by code_simp

text \<open>
  On \<open>demo_store\<close> at day 20100: NVDA is expected at 100 and held at 75, TSLA is traded
  and missing in the snapshot, MSFT is in the snapshot only, AAPL (0 and 0) is not reported.
\<close>

theorem reconciliation_spec_witness:
  "\<lparr>d_account_id = ''ACC001'', d_ticker = ''NVDA'', d_expected_shares = 100,
     d_actual_shares = 75, d_difference = - 25, d_status = ''quantity_mismatch''\<rparr>
     \<in> set (reconciliation demo_store 20100) \<and>
   net_shares demo_store ''ACC001'' ''NVDA'' 20100 = 100 \<and>
   snapshot_shares demo_store ''ACC001'' ''NVDA'' 20100 = 75 \<and>
   net_shares demo_store ''ACC001'' ''TSLA'' 20100 = - 100 \<and>
   snapshot_shares demo_store ''ACC001'' ''TSLA'' 20100 = 0 \<and>
   net_shares demo_store ''ACC001'' ''MSFT'' 20100 = 0 \<and>
   snapshot_shares demo_store ''ACC001'' ''MSFT'' 20100 = 10 \<and>
   {k \<in> trade_keys demo_store 20100 \<union> snapshot_keys demo_store 20100.
      net_shares demo_store (fst k) (snd k) 20100 \<noteq> snapshot_shares demo_store (fst k) (snd k) 20100}
     = {(''ACC001'', ''MSFT''), (''ACC001'', ''NVDA''), (''ACC001'', ''TSLA'')}"
  using reconciliation_spec [of demo_store 20100]
  by (simp add: demo_reconciliation discrepancy_key_def)

section \<open>Closed positions in the trade-derived concentration\<close>

lemma add_trade_value_eq:
  "add_trade_value t e =
     \<lparr>ve_shares = ve_shares e + t_quantity t, ve_total_value = ve_total_value e + trade_value t\<rparr>"
  by (cases e) (simp add: add_trade_value_def trade_value_def Let_def split: option.splits)

lemma value_positions_map_lookup:
  "map_of (value_positions_map ts m) k =
     (if k \<in> (\<lambda>t. (t_account_id t, t_ticker t)) ` set ts \<or> map_of m k \<noteq> None
      then Some \<lparr>ve_shares = (case map_of m k of None \<Rightarrow> 0 | Some e \<Rightarrow> ve_shares e) +
                     sum_list (map t_quantity
                       (filter (\<lambda>t. (t_account_id t, t_ticker t) = k) ts)),
                 ve_total_value = (case map_of m k of None \<Rightarrow> 0 | Some e \<Rightarrow> ve_total_value e) +
                     sum_list (map trade_value
                       (filter (\<lambda>t. (t_account_id t, t_ticker t) = k) ts))\<rparr>
      else None)"
proof (induction ts arbitrary: m)
  case Nil
  show ?case by (auto split: option.splits)
next
  case (Cons t ts)
  show ?case
    by (simp add: Cons.IH Let_def update_conv' add_trade_value_eq split: option.splits)
qed

lemma value_positions_map_distinct:
  "distinct (map fst m) \<Longrightarrow> distinct (map fst (value_positions_map ts m))"
  by (induction ts arbitrary: m) (simp_all add: Let_def distinct_update)

lemma value_positions_map_entry:
  assumes "(k, e) \<in> set (value_positions_map (filter (\<lambda>t. t_trade_date t \<le> d) (trades s)) [])"
  shows "ve_shares e = net_shares s (fst k) (snd k) d \<and>
         ve_total_value e = aggregate_value s (fst k) (snd k) d"
proof -
  have eq: "filter (\<lambda>t. (t_account_id t, t_ticker t) = k) (filter (\<lambda>t. t_trade_date t \<le> d) xs)
        = filter (\<lambda>t. t_trade_date t \<le> d \<and> t_account_id t = fst k \<and> t_ticker t = snd k) xs"
    for xs
    by (induction xs) auto
  have "distinct (map fst (value_positions_map (filter (\<lambda>t. t_trade_date t \<le> d) (trades s)) []))"
    by (rule value_positions_map_distinct) simp
  with assms
  have "map_of (value_positions_map (filter (\<lambda>t. t_trade_date t \<le> d) (trades s)) []) k = Some e"
    by simp
  then show ?thesis
    unfolding value_positions_map_lookup net_shares_def aggregate_value_def eq [symmetric]
    by (auto simp del: filter_filter split: if_splits)
qed

lemma value_positions_map_keys:
  "fst ` set (value_positions_map ts []) = (\<lambda>t. (t_account_id t, t_ticker t)) ` set ts"
  unfolding dom_map_of_conv_image_fst [symmetric] dom_def value_positions_map_lookup
  by auto

lemma group_account_positions_lookup:
  "map_of (group_account_positions pm ap) a =
     (if open_positions_of a pm = [] then map_of ap a
      else Some ((case map_of ap a of None \<Rightarrow> [] | Some l \<Rightarrow> l) @ open_positions_of a pm))"
proof (induction pm ap rule: group_account_positions.induct)
  case (1 ap)
  show ?case by (simp add: open_positions_of_def)
next
  case (2 account_id ticker data rest ap)
  show ?case
  proof (cases "ve_shares data = 0")
    case True
    with 2 show ?thesis by (simp add: open_positions_of_def)
  next
    case False
    with 2 show ?thesis
      by (simp add: open_positions_of_def Let_def update_conv' split: option.splits)
  qed
qed

lemma group_account_positions_distinct:
  "distinct (map fst ap) \<Longrightarrow> distinct (map fst (group_account_positions pm ap))"
  by (induction pm ap rule: group_account_positions.induct) (simp_all add: Let_def distinct_update)

lemma group_account_positions_member:
  assumes "(a, pl) \<in> set (group_account_positions pm [])"
  shows "pl = open_positions_of a pm"
proof -
  have "distinct (map fst (group_account_positions pm []))"
    by (rule group_account_positions_distinct) simp
  with assms have "map_of (group_account_positions pm []) a = Some pl" by simp
  then show ?thesis
    unfolding group_account_positions_lookup by (simp split: if_splits)
qed

lemma open_positions_total:
  assumes "\<forall>(k, e) \<in> set pm. fst k = a \<longrightarrow> ve_shares e = N (snd k) \<and> ve_total_value e = V (snd k)"
  shows "sum_list (map tp_market_value
           (filter (\<lambda>p. tp_market_value p > 0) (open_positions_of a pm)))
         = sum_list (map V (filter (\<lambda>tk. N tk \<noteq> 0 \<and> V tk > 0)
                      (map snd (filter (\<lambda>k. fst k = a) (map fst pm)))))"
  using assms
  by (induction pm) (auto simp: open_positions_of_def)

lemma sum_list_filter_same_set:
  fixes f :: "'a \<Rightarrow> rat"
  assumes "distinct xs" and "distinct ys" and "set xs = set ys"
  shows "sum_list (map f (filter P xs)) = sum_list (map f (filter P ys))"
proof -
  have "sum_list (map f (filter P xs)) = sum f (set (filter P xs))"
    using assms(1) by (simp add: sum_list_distinct_conv_sum_set)
  also have "set (filter P xs) = set (filter P ys)"
    using assms(3) by simp
  also have "sum f (set (filter P ys)) = sum_list (map f (filter P ys))"
    using assms(2) by (simp add: sum_list_distinct_conv_sum_set)
  finally show ?thesis .
qed

lemma account_tickers_distinct:
  assumes "distinct (map fst pm)"
  shows "distinct (map snd (filter (\<lambda>k. fst k = a) (map fst pm)))"
proof -
  have "inj_on snd (set (filter (\<lambda>k. fst k = a) (map fst pm)))"
    by (rule inj_onI) (auto simp: prod_eq_iff)
  moreover have "distinct (filter (\<lambda>k. fst k = a) (map fst pm))"
    using assms by simp
  ultimately show ?thesis by (simp add: distinct_map)
qed

lemma account_tickers_set:
  "set (map snd (filter (\<lambda>k. fst k = a)
          (map fst (value_positions_map (filter (\<lambda>t. t_trade_date t \<le> d) (trades s)) []))))
   = set (traded_tickers s a d)"
proof -
  have img: "set (map snd (filter (\<lambda>k. fst k = a) (map fst pm))) = snd ` {k \<in> fst ` set pm. fst k = a}"
    for pm :: "((string \<times> string) \<times> value_entry) list"
    by auto
  show ?thesis
    unfolding img value_positions_map_keys traded_tickers_def
    by force
qed

lemma trade_account_total:
  "sum_list (map tp_market_value
     (filter (\<lambda>p. tp_market_value p > 0)
        (open_positions_of a (value_positions_map (filter (\<lambda>t. t_trade_date t \<le> d) (trades s)) []))))
   = open_positive_total s a d"
proof -
  let ?pm = "value_positions_map (filter (\<lambda>t. t_trade_date t \<le> d) (trades s)) []"
  have ent: "\<forall>(k, e) \<in> set ?pm. fst k = a \<longrightarrow>
               ve_shares e = net_shares s a (snd k) d \<and>
               ve_total_value e = aggregate_value s a (snd k) d"
    using value_positions_map_entry [of _ _ d s] by auto
  have dist: "distinct (map fst ?pm)"
    by (rule value_positions_map_distinct) simp
  have "sum_list (map tp_market_value
          (filter (\<lambda>p. tp_market_value p > 0) (open_positions_of a ?pm)))
        = sum_list (map (\<lambda>tk. aggregate_value s a tk d)
            (filter (\<lambda>tk. net_shares s a tk d \<noteq> 0 \<and> aggregate_value s a tk d > 0)
               (map snd (filter (\<lambda>k. fst k = a) (map fst ?pm)))))"
    using ent by (rule open_positions_total)
  also have "\<dots> = sum_list (map (\<lambda>tk. aggregate_value s a tk d)
            (filter (\<lambda>tk. net_shares s a tk d \<noteq> 0 \<and> aggregate_value s a tk d > 0)
               (traded_tickers s a d)))"
  proof (rule sum_list_filter_same_set)
    show "distinct (map snd (filter (\<lambda>k. fst k = a) (map fst ?pm)))"
      using dist by (rule account_tickers_distinct)
    show "distinct (traded_tickers s a d)"
      by (simp add: traded_tickers_def)
    show "set (map snd (filter (\<lambda>k. fst k = a) (map fst ?pm))) = set (traded_tickers s a d)"
      by (rule account_tickers_set)
  qed
  finally show ?thesis by (simp only: open_positive_total_def)
qed

lemma open_positions_of_member:
  assumes "pos \<in> set (open_positions_of a pm)"
  shows "\<exists>k e. (k, e) \<in> set pm \<and> fst k = a \<and> ve_shares e \<noteq> 0 \<and>
           tp_ticker pos = snd k \<and> tp_shares pos = ve_shares e \<and>
           tp_market_value pos = ve_total_value e"
  using assms by (auto simp: open_positions_of_def)

lemma trade_violation_open:
  assumes "v \<in> set (violations_from_trades s d)"
  shows "v_shares v \<noteq> 0 \<and>
         v_shares v = net_shares s (v_account_id v) (v_ticker v) d \<and>
         v_market_value v = aggregate_value s (v_account_id v) (v_ticker v) d \<and>
         v_account_total_value v = open_positive_total s (v_account_id v) d"
proof -
  let ?pm = "value_positions_map (filter (\<lambda>t. t_trade_date t \<le> d) (trades s)) []"
  from violations_from_trades_origin [OF assms] obtain a pl where
    g: "(a, pl) \<in> set (group_account_positions ?pm [])" and c: "v \<in> set (check_trade_account a pl)"
    by blast
  from group_account_positions_member [OF g] have pl: "pl = open_positions_of a ?pm" .
  from check_trade_account_sound [OF c] obtain pos where
    pos: "pos \<in> set pl" and
    v: "v_account_id v = a" "v_ticker v = tp_ticker pos" "v_shares v = tp_shares pos"
       "v_market_value v = tp_market_value pos"
       "v_account_total_value v =
          sum_list (map tp_market_value (filter (\<lambda>p. tp_market_value p > 0) pl))"
    by blast
  from pos pl open_positions_of_member [of pos a ?pm] obtain k e where
    ke: "(k, e) \<in> set ?pm" "fst k = a" "ve_shares e \<noteq> 0" "tp_ticker pos = snd k"
        "tp_shares pos = ve_shares e" "tp_market_value pos = ve_total_value e"
    by blast
  from value_positions_map_entry [OF ke(1)]
  have ent: "ve_shares e = net_shares s (fst k) (snd k) d"
    "ve_total_value e = aggregate_value s (fst k) (snd k) d" by simp_all
  have tot: "v_account_total_value v = open_positive_total s a d"
    unfolding v(5) pl by (rule trade_account_total)
  from v ke ent tot show ?thesis by simp
qed

text \<open>
  The snapshot-derived computation groups the rows of the date by account as they are
  stored, with no step that looks at the share count.
\<close>

lemma group_bank_positions_lookup:
  "map_of (group_bank_positions ps ap) a =
     (if filter (\<lambda>p. p_account_id p = a) ps = [] then map_of ap a
      else Some ((case map_of ap a of None \<Rightarrow> [] | Some l \<Rightarrow> l)
                 @ filter (\<lambda>p. p_account_id p = a) ps))"
proof (induction ps arbitrary: ap)
  case Nil
  show ?case by simp
next
  case (Cons p ps)
  show ?case
    by (simp add: Cons.IH Let_def update_conv' split: option.splits)
qed

lemma group_bank_positions_distinct:
  "distinct (map fst ap) \<Longrightarrow> distinct (map fst (group_bank_positions ps ap))"
  by (induction ps arbitrary: ap) (simp_all add: Let_def distinct_update)

lemma group_bank_positions_member:
  assumes "(a, pl) \<in> set (group_bank_positions ps [])"
  shows "pl = filter (\<lambda>p. p_account_id p = a) ps"
proof -
  have "distinct (map fst (group_bank_positions ps []))"
    by (rule group_bank_positions_distinct) simp
  with assms have "map_of (group_bank_positions ps []) a = Some pl" by simp
  then show ?thesis
    unfolding group_bank_positions_lookup by (simp split: if_splits)
qed

lemma bank_violation_total:
  assumes "v \<in> set (violations_from_bank s d)"
  shows "v_account_total_value v = snapshot_positive_total s (v_account_id v) d"
proof -
  from violations_from_bank_origin [OF assms] obtain a pl where
    g: "(a, pl) \<in> set (group_bank_positions (filter (\<lambda>p. p_report_date p = d) (positions s)) [])"
    and c: "v \<in> set (check_bank_account a pl)"
    by blast
  from group_bank_positions_member [OF g]
  have pl: "pl = filter (\<lambda>p. p_account_id p = a) (filter (\<lambda>p. p_report_date p = d) (positions s))" .
  from check_bank_account_sound [OF c] obtain pos where
    v: "v_account_id v = a"
       "v_account_total_value v =
          sum_list (map p_market_value (filter (\<lambda>p. p_market_value p > 0) pl))"
    by blast
  show ?thesis
    unfolding v pl snapshot_positive_total_def ..
qed

lemma bank_row_flagged:
  assumes p: "p \<in> set (positions s)" "p_report_date p = d"
    and mv: "0 < p_market_value p"
    and over: "threshold < p_market_value p / snapshot_positive_total s (p_account_id p) d"
  shows "\<exists>v \<in> set (violations_from_bank s d).
           v_account_id v = p_account_id p \<and> v_ticker v = p_ticker p \<and>
           v_shares v = p_shares p \<and> v_market_value v = p_market_value p"
proof -
  let ?bank = "filter (\<lambda>p. p_report_date p = d) (positions s)"
  let ?a = "p_account_id p"
  let ?pl = "filter (\<lambda>q. p_account_id q = ?a) ?bank"
  let ?total = "sum_list (map p_market_value (filter (\<lambda>q. p_market_value q > 0) ?pl))"
  from p have mem: "p \<in> set ?pl" by simp
  from length_pos_if_in_set [OF mem] have ne: "?pl \<noteq> []"
    by (simp only: length_greater_0_conv not_False_eq_True)
  have bank_ne: "?bank \<noteq> []"
  proof (rule notI)
    assume e: "?bank = []"
    from ne show False unfolding e by simp
  qed
  from ne have "map_of (group_bank_positions ?bank []) ?a = Some ?pl"
    unfolding group_bank_positions_lookup by simp
  then have g: "(?a, ?pl) \<in> set (sort_key fst (group_bank_positions ?bank []))"
    by (simp add: map_of_SomeD)
  have tot: "?total = snapshot_positive_total s ?a d"
    by (simp only: snapshot_positive_total_def)
  from mv have tpos: "0 < ?total"
    using member_le_positive_part [of p ?pl p_market_value] mem by simp
  let ?v = "\<lparr>v_account_id = ?a, v_ticker = p_ticker p, v_shares = p_shares p,
              v_market_value = p_market_value p, v_account_total_value = ?total,
              v_concentration_pct = p_market_value p / ?total * 100, v_threshold_pct = 20,
              v_excess_pct = (p_market_value p / ?total - threshold) * 100,
              v_custodian_ref = p_custodian_ref p\<rparr>"
  from mem have mem': "p \<in> set (sort_key p_ticker ?pl)" by simp
  have "?v \<in> set (check_bank_account ?a ?pl)"
    unfolding check_bank_account_def Let_def set_concat set_map
    using mem' mv tpos over unfolding tot [symmetric]
    by (intro UN_I [where a = "(if p_market_value p \<le> 0 then [] else
           if (if 0 < ?total then p_market_value p / ?total else 0) > threshold then [?v] else [])"])
       (auto intro!: image_eqI [where x = p])
  with g have "?v \<in> set (violations_from_bank s d)"
    unfolding violations_from_bank_def Let_def using bank_ne
    by (auto intro!: bexI [where x = "(?a, ?pl)"])
  then show ?thesis by (intro bexI [where x = ?v]) simp_all
qed

text \<open>
  What the trade-derived computation does with a closed position. Every violation has a
  net share count that is not zero (the signed sum of the trade quantities of its account
  and ticker up to the date), its value is the aggregate value of those trades, and its
  account total is the sum of the strictly positive aggregate values of the account's
  tickers whose net share count is not zero: an aggregate with zero net shares is in no
  total and in no violation.
\<close>

lemma closed_positions_dropped_from_trades:
  "\<forall>v \<in> set (violations_from_trades s d).
      v_shares v \<noteq> 0 \<and>
      v_shares v = net_shares s (v_account_id v) (v_ticker v) d \<and>
      v_market_value v = aggregate_value s (v_account_id v) (v_ticker v) d \<and>
      v_account_total_value v = open_positive_total s (v_account_id v) d"
  by (rule ballI) (rule trade_violation_open)

lemma demo_closed_aapl:
  "net_shares demo_store ''ACC001'' ''AAPL'' 20100 = 0 \<and>
   aggregate_value demo_store ''ACC001'' ''AAPL'' 20100 = 100"
  by code_simp

text \<open>
  On \<open>demo_store\<close> AAPL was bought and sold (net 0 shares, aggregate value 100): the
  account total of the NVDA violation is 40424, without it.
\<close>

lemma demo_closed_position_dropped:
  "demo_trade_violation \<in> set (violations_from_trades demo_store 20100) \<and>
   net_shares demo_store ''ACC001'' ''NVDA'' 20100 = 100 \<and>
   aggregate_value demo_store ''ACC001'' ''NVDA'' 20100 = 40424 \<and>
   net_shares demo_store ''ACC001'' ''AAPL'' 20100 = 0 \<and>
   aggregate_value demo_store ''ACC001'' ''AAPL'' 20100 = 100 \<and>
   open_positive_total demo_store ''ACC001'' 20100 = 40424"
proof -
  have t: "violations_from_trades demo_store 20100 = fst (compliance_concentration demo_store 20100)"
    by (simp add: compliance_concentration_def)
  from closed_positions_dropped_from_trades [of demo_store 20100] demo_closed_aapl
  show ?thesis
    unfolding t demo_compliance by (simp add: demo_trade_violation_def)
qed


text \<open>
  C6 (defect in the code). The claim, like the specification, gives one algorithm for both
  sources, with the step that drops an aggregate whose share count is zero. The
  trade-derived computation has that step (\<open>closed_positions_dropped_from_trades\<close>);
  the snapshot-derived computation of the same function has none. A snapshot row with 0
  shares and a market value of 500 enters the account total and is reported as a
  violation at 100\<open>%\<close>.
\<close>

theorem zero_share_snapshot_flagged:
  "map p_shares (filter (\<lambda>p. p_report_date p = 20100) (positions zero_share_store)) = [0] \<and>
   violations_from_bank zero_share_store 20100 =
     [\<lparr>v_account_id = ''ACC002'', v_ticker = ''GOOG'', v_shares = 0, v_market_value = 500,
       v_account_total_value = 500, v_concentration_pct = 100, v_threshold_pct = 20,
       v_excess_pct = 80, v_custodian_ref = Some ''CUST_A_12345''\<rparr>]"
  by code_simp


section \<open>A file whose reading fails partway\<close>

lemma format1_rows_append:
  "format1_rows lib ss r n (map Row rows @ evs) =
   format1_rows lib (fst (snd (format1_rows lib ss r n (map Row rows))))
     (snd (snd (format1_rows lib ss r n (map Row rows)))) (n + length rows) evs"
proof (induction rows arbitrary: ss r n)
  case Nil
  show ?case by simp
next
  case (Cons row rows)
  show ?case
    by (cases "TradeFormat1 row") (simp_all add: Let_def Cons.IH account_step_eq)
qed

lemma format2_rows_append:
  "format2_rows lib ss r cs n (map Row rows @ evs) =
   format2_rows lib (fst (snd (format2_rows lib ss r cs n (map Row rows))))
     (fst (snd (snd (format2_rows lib ss r cs n (map Row rows)))))
     (snd (snd (snd (format2_rows lib ss r cs n (map Row rows))))) (n + length rows) evs"
proof (induction rows arbitrary: ss r cs n)
  case Nil
  show ?case by simp
next
  case (Cons row rows)
  show ?case
    by (cases "TradeFormat2 row") (simp_all add: Let_def Cons.IH account_step_eq)
qed

lemma format1_rows_processed:
  "records_processed (snd (snd (format1_rows lib ss r n (map Row rows)))) =
   records_processed r + length rows"
proof (induction rows arbitrary: ss r n)
  case Nil
  show ?case by simp
next
  case (Cons row rows)
  show ?case
    by (cases "TradeFormat1 row")
      (simp_all add: Let_def Cons.IH account_step_eq row_failed_def)
qed

lemma format2_rows_processed:
  "records_processed (fst (snd (snd (format2_rows lib ss r cs n (map Row rows))))) =
   records_processed r + length rows"
proof (induction rows arbitrary: ss r cs n)
  case Nil
  show ?case by simp
next
  case (Cons row rows)
  show ?case
    by (cases "TradeFormat2 row")
      (simp_all add: Let_def Cons.IH account_step_eq row_failed_def)
qed

text \<open>Every loop adds as many entries to \<open>errors\<close> as it adds to \<open>records_failed\<close>.\<close>

lemma format1_rows_errors:
  "int (length (errors (snd (snd (format1_rows lib ss r n evs))))) -
   int (records_failed (snd (snd (format1_rows lib ss r n evs)))) =
   int (length (errors r)) - int (records_failed r)"
proof (induction evs arbitrary: ss r n)
  case Nil
  show ?case by simp
next
  case (Cons ev evs)
  show ?case
  proof (cases ev)
    case (ReadError e)
    then show ?thesis by simp
  next
    case (Row row)
    then show ?thesis
      by (cases "TradeFormat1 row")
        (simp_all add: Let_def Cons.IH account_step_eq row_failed_def)
  qed
qed

lemma format2_rows_errors:
  "int (length (errors (fst (snd (snd (format2_rows lib ss r cs n evs)))))) -
   int (records_failed (fst (snd (snd (format2_rows lib ss r cs n evs))))) =
   int (length (errors r)) - int (records_failed r)"
proof (induction evs arbitrary: ss r cs n)
  case Nil
  show ?case by simp
next
  case (Cons ev evs)
  show ?case
  proof (cases ev)
    case (ReadError e)
    then show ?thesis by simp
  next
    case (Row row)
    then show ?thesis
      by (cases "TradeFormat2 row")
        (simp_all add: Let_def Cons.IH account_step_eq row_failed_def)
  qed
qed

lemma ingest_trade_format1_aborted:
  "ingest_trade_format1 lib s fname (map Row rows @ ReadError e # rest) =
   (s, file_failed (snd (snd (format1_rows lib (begin_session s)
                                (new_report fname ''CSV_FORMAT1'') 2 (map Row rows)))) e)"
  by (simp add: ingest_trade_format1_def format1_rows_append case_prod_beta)

lemma ingest_trade_format2_aborted:
  "ingest_trade_format2 lib s fname (map Row rows @ ReadError e # rest) =
   (s, file_failed (fst (snd (snd (format2_rows lib (begin_session s)
                                     (new_report fname ''PIPE_FORMAT2'') [] 2 (map Row rows)))))
         e)"
  by (simp add: ingest_trade_format2_def format2_rows_append case_prod_beta)

lemma pipe_row_valid:
  "TradeFormat2 pipe_row = Inr \<lparr>v2_report_date = 20100, v2_account_id = ''ACC001'',
     v2_ticker = ''AAPL'', v2_shares = 100, v2_market_value = 18500,
     v2_source_system = ''CUSTODIAN_A''\<rparr>"
  by (simp add: pipe_row_def TradeFormat2_def)

text \<open>
  C10. For every ingestion call, whatever the store, the file and the declared format,
  the returned report has \<open>records_processed = records_valid + records_failed\<close>. When
  the reading of a row file fails after some rows, or a position file cannot be loaded,
  the call leaves the store as it was, every row read before is counted as processed, and
  the file-level entry is the last of \<open>errors\<close> and is counted in no counter:
  \<open>errors\<close> has one entry more than \<open>records_failed\<close> counts. When, in addition,
  SQLite can hold the quantity of every validated row read before, \<open>records_failed\<close>
  counts exactly the rows that failed validation.
\<close>

theorem report_counts_balance:
  "records_processed (snd (ingest_file lib s file fmt)) =
     records_valid (snd (ingest_file lib s file fmt)) +
     records_failed (snd (ingest_file lib s file fmt)) \<and>
   fst (ingest_trade_format1 lib s fname (map Row rows @ ReadError e # rest)) = s \<and>
   records_processed (snd (ingest_trade_format1 lib s fname (map Row rows @ ReadError e # rest)))
     = length rows \<and>
   length (errors (snd (ingest_trade_format1 lib s fname (map Row rows @ ReadError e # rest))))
     = records_failed (snd (ingest_trade_format1 lib s fname
                              (map Row rows @ ReadError e # rest))) + 1 \<and>
   last (errors (snd (ingest_trade_format1 lib s fname (map Row rows @ ReadError e # rest))))
     = ''File processing error: '' @ e \<and>
   (format1_storable rows \<longrightarrow>
      records_failed (snd (ingest_trade_format1 lib s fname (map Row rows @ ReadError e # rest)))
        = length (filter (\<lambda>row. isl (TradeFormat1 row)) rows) \<and>
      records_valid (snd (ingest_trade_format1 lib s fname (map Row rows @ ReadError e # rest)))
        = length (filter (\<lambda>row. \<not> isl (TradeFormat1 row)) rows) \<and>
      errors (snd (ingest_trade_format1 lib s fname (map Row rows @ ReadError e # rest)))
        = concat (map (\<lambda>(row_num, row). case TradeFormat1 row of
                       Inl e \<Rightarrow> [''Row '' @ str_nat row_num @ '': '' @ e]
                     | Inr v \<Rightarrow> []) (enumerate 2 rows))
          @ [''File processing error: '' @ e]) \<and>
   fst (ingest_trade_format2 lib s fname (map Row pipe_rows @ ReadError e # pipe_rest)) = s \<and>
   records_processed (snd (ingest_trade_format2 lib s fname (map Row pipe_rows @ ReadError e # pipe_rest)))
     = length pipe_rows \<and>
   length (errors (snd (ingest_trade_format2 lib s fname (map Row pipe_rows @ ReadError e # pipe_rest))))
     = records_failed (snd (ingest_trade_format2 lib s fname
                              (map Row pipe_rows @ ReadError e # pipe_rest))) + 1 \<and>
   (format2_storable pipe_rows \<longrightarrow>
      records_failed (snd (ingest_trade_format2 lib s fname (map Row pipe_rows @ ReadError e # pipe_rest)))
        = length (filter (\<lambda>row. isl (TradeFormat2 row)) pipe_rows) \<and>
      records_valid (snd (ingest_trade_format2 lib s fname (map Row pipe_rows @ ReadError e # pipe_rest)))
        = length (filter (\<lambda>row. \<not> isl (TradeFormat2 row)) pipe_rows)) \<and>
   records_failed (snd (ingest_bank_positions lib s fname (LoadError e))) = 0 \<and>
   errors (snd (ingest_bank_positions lib s fname (LoadError e))) = [''File processing error: '' @ e]"
proof -
  have bal: "counted (snd (ingest_file lib s file fmt))"
    by (rule ingest_file_counted)
  let ?r1 = "snd (snd (format1_rows lib (begin_session s) (new_report fname ''CSV_FORMAT1'') 2
                         (map Row rows)))"
  let ?r2 = "fst (snd (snd (format2_rows lib (begin_session s) (new_report fname ''PIPE_FORMAT2'')
                              [] 2 (map Row pipe_rows))))"
  have p1: "records_processed ?r1 = length rows"
    by (simp add: format1_rows_processed new_report_def)
  have p2: "records_processed ?r2 = length pipe_rows"
    by (simp add: format2_rows_processed new_report_def)
  have e1: "length (errors ?r1) = records_failed ?r1"
    using format1_rows_errors [of lib "begin_session s" "new_report fname ''CSV_FORMAT1''" 2
        "map Row rows"]
    by (simp add: new_report_def)
  have e2: "length (errors ?r2) = records_failed ?r2"
    using format2_rows_errors [of lib "begin_session s" "new_report fname ''PIPE_FORMAT2''" "[]" 2
        "map Row pipe_rows"]
    by (simp add: new_report_def)
  have a: "format1_storable rows \<longrightarrow>
      records_failed ?r1 = length (filter (\<lambda>row. isl (TradeFormat1 row)) rows) \<and>
      records_valid ?r1 = length (filter (\<lambda>row. \<not> isl (TradeFormat1 row)) rows) \<and>
      errors ?r1 = concat (map (\<lambda>(row_num, row). case TradeFormat1 row of
                       Inl e \<Rightarrow> [''Row '' @ str_nat row_num @ '': '' @ e]
                     | Inr v \<Rightarrow> []) (enumerate 2 rows))"
  proof
    assume st: "format1_storable rows"
    from format1_rows_Rows [OF begin_session_facts(1) begin_session_facts(2) st,
        where r = "new_report fname ''CSV_FORMAT1''" and n = 2 and lib = lib and s1 = s]
    show "records_failed ?r1 = length (filter (\<lambda>row. isl (TradeFormat1 row)) rows) \<and>
      records_valid ?r1 = length (filter (\<lambda>row. \<not> isl (TradeFormat1 row)) rows) \<and>
      errors ?r1 = concat (map (\<lambda>(row_num, row). case TradeFormat1 row of
                       Inl e \<Rightarrow> [''Row '' @ str_nat row_num @ '': '' @ e]
                     | Inr v \<Rightarrow> []) (enumerate 2 rows))"
      by (simp add: new_report_def)
  qed
  have b: "format2_storable pipe_rows \<longrightarrow>
      records_failed ?r2 = length (filter (\<lambda>row. isl (TradeFormat2 row)) pipe_rows) \<and>
      records_valid ?r2 = length (filter (\<lambda>row. \<not> isl (TradeFormat2 row)) pipe_rows)"
  proof
    assume st: "format2_storable pipe_rows"
    from format2_rows_Rows [OF begin_session_facts(1) begin_session_facts(2) st,
        where r = "new_report fname ''PIPE_FORMAT2''" and n = 2 and lib = lib and s1 = s
          and cs = "[]"]
    show "records_failed ?r2 = length (filter (\<lambda>row. isl (TradeFormat2 row)) pipe_rows) \<and>
      records_valid ?r2 = length (filter (\<lambda>row. \<not> isl (TradeFormat2 row)) pipe_rows)"
      by (simp add: new_report_def)
  qed
  have yaml: "records_failed (snd (ingest_bank_positions lib s fname (LoadError e))) = 0 \<and>
     errors (snd (ingest_bank_positions lib s fname (LoadError e))) = [''File processing error: '' @ e]"
    by (simp add: ingest_bank_positions_def Let_def new_report_def file_failed_def)
  show ?thesis
    unfolding ingest_trade_format1_aborted ingest_trade_format2_aborted
    using bal p1 p2 e1 e2 a b yaml by (simp add: counted_def file_failed_def)
qed

text \<open>
  The ten-row file whose fifth record has quantity -5, and the one-row Format B file,
  each with a reader failure after the last row.
\<close>

theorem report_counts_balance_witness:
  "format1_storable ten_rows \<and> format2_storable [pipe_row] \<and>
   records_processed (snd (ingest_trade_format1 sqlite_library empty_store ''trades.csv''
                             (map Row ten_rows @ [ReadError ''line contains NUL'']))) = 10 \<and>
   records_valid (snd (ingest_trade_format1 sqlite_library empty_store ''trades.csv''
                         (map Row ten_rows @ [ReadError ''line contains NUL'']))) = 9 \<and>
   records_failed (snd (ingest_trade_format1 sqlite_library empty_store ''trades.csv''
                          (map Row ten_rows @ [ReadError ''line contains NUL'']))) = 1 \<and>
   errors (snd (ingest_trade_format1 sqlite_library empty_store ''trades.csv''
                  (map Row ten_rows @ [ReadError ''line contains NUL'']))) =
     [''Row 6: 1 validation error for TradeFormat1'',
      ''File processing error: line contains NUL''] \<and>
   fst (ingest_trade_format1 sqlite_library empty_store ''trades.csv''
          (map Row ten_rows @ [ReadError ''line contains NUL''])) = empty_store \<and>
   records_valid (snd (ingest_trade_format2 sqlite_library empty_store ''trades.txt''
                         (map Row [pipe_row] @ [ReadError ''line contains NUL'']))) = 1 \<and>
   records_failed (snd (ingest_trade_format2 sqlite_library empty_store ''trades.txt''
                          (map Row [pipe_row] @ [ReadError ''line contains NUL'']))) = 0"
proof -
  have st1: "format1_storable ten_rows"
    by (simp add: format1_storable_def ten_rows_def buy_row_valid sell_row_valid bad_row_invalid
        signed_quantity_def TradeType_value_def storable_int_def)
  have st2: "format2_storable [pipe_row]"
    by (simp add: format2_storable_def pipe_row_valid storable_int_def)
  note t1 = report_counts_balance [where lib = sqlite_library and s = empty_store
      and fname = "''trades.csv''" and rows = ten_rows and e = "''line contains NUL''"
      and rest = "[]" and pipe_rows = "[pipe_row]" and pipe_rest = "[]"]
  note t2 = report_counts_balance [where lib = sqlite_library and s = empty_store
      and fname = "''trades.txt''" and rows = ten_rows and e = "''line contains NUL''"
      and rest = "[]" and pipe_rows = "[pipe_row]" and pipe_rest = "[]"]
  from t1 st1 have a:
   "records_processed (snd (ingest_trade_format1 sqlite_library empty_store ''trades.csv''
                             (map Row ten_rows @ [ReadError ''line contains NUL'']))) = 10 \<and>
   records_valid (snd (ingest_trade_format1 sqlite_library empty_store ''trades.csv''
                         (map Row ten_rows @ [ReadError ''line contains NUL'']))) = 9 \<and>
   records_failed (snd (ingest_trade_format1 sqlite_library empty_store ''trades.csv''
                          (map Row ten_rows @ [ReadError ''line contains NUL'']))) = 1 \<and>
   errors (snd (ingest_trade_format1 sqlite_library empty_store ''trades.csv''
                  (map Row ten_rows @ [ReadError ''line contains NUL'']))) =
     [''Row 6: 1 validation error for TradeFormat1'',
      ''File processing error: line contains NUL''] \<and>
   fst (ingest_trade_format1 sqlite_library empty_store ''trades.csv''
          (map Row ten_rows @ [ReadError ''line contains NUL''])) = empty_store"
    by (simp add: ten_rows_def buy_row_valid sell_row_valid bad_row_invalid
        enumerate_eq_zip upt_rec str_nat.simps)
  from t2 st2 have b:
   "records_valid (snd (ingest_trade_format2 sqlite_library empty_store ''trades.txt''
                         (map Row [pipe_row] @ [ReadError ''line contains NUL'']))) = 1 \<and>
   records_failed (snd (ingest_trade_format2 sqlite_library empty_store ''trades.txt''
                          (map Row [pipe_row] @ [ReadError ''line contains NUL'']))) = 0"
    by (simp add: pipe_row_valid)
  from st1 st2 a b show ?thesis by blast
qed

end
